theory Spec2Isabelle
  imports Main
begin

section \<open>Python values used by the scheduling engine\<close>

text \<open>
  The engine is \<^verbatim>\<open>CalendlyMockAPI\<close> (backend/api/calendly_integration.py) and
  \<^verbatim>\<open>AvailabilityTool\<close> (backend/tools/availability_tool.py).  Both work on strings
  (dates \<^verbatim>\<open>"%Y-%m-%d"\<close>, times \<^verbatim>\<open>"%H:%M"\<close>) that are parsed with
  \<^verbatim>\<open>datetime.strptime\<close> each time they are used, so the model keeps the strings and
  models the two formats of \<^verbatim>\<open>strptime\<close>/\<^verbatim>\<open>strftime\<close> that occur.

  Exceptions are values: \<open>exn + 'a\<close>, \<open>Inl\<close> the raised exception.
\<close>

datatype exn = ValueError | OverflowError

subsection \<open>Digits\<close>

text \<open>
  ASCII decimal digits.  Strings here are lists of 8-bit characters, so the model covers
  ASCII input.  (Python's \<^verbatim>\<open>\d\<close> and \<^verbatim>\<open>int()\<close> also accept the other decimal
  digits of Unicode; date and time strings written with those are outside the model.)
\<close>

definition digit_of :: "char \<Rightarrow> int option" where
  "digit_of c = (let n = (of_char c :: int) in if 48 \<le> n \<and> n \<le> 57 then Some (n - 48) else None)"

definition digit_char :: "int \<Rightarrow> char" where
  "digit_char n = ''0123456789'' ! nat n"

text \<open>\<^verbatim>\<open>"%02d"\<close> and \<^verbatim>\<open>"%04d"\<close> on the ranges that occur (below 100 and below 10000).\<close>

definition pad2 :: "int \<Rightarrow> string" where
  "pad2 n = [digit_char (n div 10 mod 10), digit_char (n mod 10)]"

definition pad4 :: "int \<Rightarrow> string" where
  "pad4 n = [digit_char (n div 1000 mod 10), digit_char (n div 100 mod 10),
             digit_char (n div 10 mod 10), digit_char (n mod 10)]"

subsection \<open>Times of day\<close>

text \<open>A \<^verbatim>\<open>datetime.time\<close> with seconds zero: hour in 0..23, minute in 0..59.\<close>

record ptime =
  hour :: int
  minute :: int

text \<open>
  The minute field of \<^verbatim>\<open>"%H:%M"\<close> is the regular expression
  \<^verbatim>\<open>[0-5]\d|\d\<close> at the end of the pattern; \<^verbatim>\<open>strptime\<close> then demands that the
  whole string was consumed.
\<close>

definition minute_field :: "int \<Rightarrow> string \<Rightarrow> ptime option" where
  "minute_field h s =
     (case s of
        [a] \<Rightarrow> (case digit_of a of Some x \<Rightarrow> Some \<lparr>hour = h, minute = x\<rparr> | None \<Rightarrow> None)
      | [a, b] \<Rightarrow>
          (case (digit_of a, digit_of b) of
             (Some x, Some y) \<Rightarrow> if x \<le> 5 then Some \<lparr>hour = h, minute = 10 * x + y\<rparr> else None
           | _ \<Rightarrow> None)
      | _ \<Rightarrow> None)"

text \<open>
  \<^verbatim>\<open>datetime.strptime(s, "%H:%M").time()\<close>: the hour field is
  \<^verbatim>\<open>2[0-3]|[0-1]\d|\d\<close> followed by a colon, so one digit or two digits up to 23.
  \<open>None\<close> is the \<^verbatim>\<open>ValueError\<close>.
\<close>

definition strptime_HM :: "string \<Rightarrow> ptime option" where
  "strptime_HM s =
     (case s of
        a # b # rest \<Rightarrow>
          if b = CHR '':'' then
            (case digit_of a of Some x \<Rightarrow> minute_field x rest | None \<Rightarrow> None)
          else
            (case (digit_of a, digit_of b, rest) of
               (Some x, Some y, c # rest') \<Rightarrow>
                 if c = CHR '':'' \<and> 10 * x + y \<le> 23 then minute_field (10 * x + y) rest' else None
             | _ \<Rightarrow> None)
      | _ \<Rightarrow> None)"

text \<open>\<^verbatim>\<open>_parse_time\<close>: raises \<^verbatim>\<open>ValueError\<close> when the string does not parse.\<close>

definition parse_time :: "string \<Rightarrow> exn + ptime" where
  "parse_time time_str = (case strptime_HM time_str of None \<Rightarrow> Inl ValueError | Some t \<Rightarrow> Inr t)"

text \<open>\<^verbatim>\<open>t.strftime("%H:%M")\<close>\<close>

definition strftime_HM :: "ptime \<Rightarrow> string" where
  "strftime_HM t = pad2 (hour t) @ '':'' @ pad2 (minute t)"

text \<open>\<^verbatim>\<open>_time_to_minutes\<close>\<close>

definition time_to_minutes :: "ptime \<Rightarrow> int" where
  "time_to_minutes t = hour t * 60 + minute t"

text \<open>
  \<^verbatim>\<open>_minutes_to_time\<close>: Python's \<^verbatim>\<open>//\<close> and \<^verbatim>\<open>%\<close> round down, as \<open>div\<close> and
  \<open>mod\<close> on \<open>int\<close> do; the constructor \<^verbatim>\<open>time(hour=..., minute=...)\<close> raises
  \<^verbatim>\<open>ValueError\<close> unless the hour is in 0..23 (the minute is in 0..59 by construction).
\<close>

definition minutes_to_time :: "int \<Rightarrow> exn + ptime" where
  "minutes_to_time minutes =
     (let hours = minutes div 60; mins = minutes mod 60
      in if 0 \<le> hours \<and> hours \<le> 23 then Inr \<lparr>hour = hours, minute = mins\<rparr>
         else Inl ValueError)"

subsection \<open>Calendar dates\<close>

text \<open>A \<^verbatim>\<open>datetime.date\<close>: proleptic Gregorian, years 1..9999.\<close>

record pdate =
  year :: int
  month :: int
  day :: int

definition is_leap :: "int \<Rightarrow> bool" where
  "is_leap y \<longleftrightarrow> y mod 4 = 0 \<and> (y mod 100 \<noteq> 0 \<or> y mod 400 = 0)"

definition days_in_month :: "int \<Rightarrow> int \<Rightarrow> int" where
  "days_in_month y m =
     (if m = 2 then (if is_leap y then 29 else 28)
      else if m = 4 \<or> m = 6 \<or> m = 9 \<or> m = 11 then 30 else 31)"

definition valid_date :: "pdate \<Rightarrow> bool" where
  "valid_date d \<longleftrightarrow>
     1 \<le> year d \<and> year d \<le> 9999 \<and> 1 \<le> month d \<and> month d \<le> 12 \<and>
     1 \<le> day d \<and> day d \<le> days_in_month (year d) (month d)"

text \<open>Comparison of dates, as \<^verbatim>\<open>date.__lt__\<close>: by year, then month, then day.\<close>

definition date_less :: "pdate \<Rightarrow> pdate \<Rightarrow> bool" where
  "date_less a b \<longleftrightarrow>
     year a < year b \<or> (year a = year b \<and> (month a < month b \<or> (month a = month b \<and> day a < day b)))"

text \<open>\<^verbatim>\<open>date.toordinal\<close>: day 1 is 0001-01-01.\<close>

definition days_before_year :: "int \<Rightarrow> int" where
  "days_before_year y = (y - 1) * 365 + (y - 1) div 4 - (y - 1) div 100 + (y - 1) div 400"

definition days_before_month :: "int \<Rightarrow> int \<Rightarrow> int" where
  "days_before_month y m = sum_list (map (days_in_month y) [1..m - 1])"

definition toordinal :: "pdate \<Rightarrow> int" where
  "toordinal d = days_before_year (year d) + days_before_month (year d) (month d) + day d"

text \<open>\<^verbatim>\<open>date.weekday\<close>: Monday is 0.\<close>

definition weekday :: "pdate \<Rightarrow> int" where
  "weekday d = (toordinal d + 6) mod 7"

text \<open>\<^verbatim>\<open>d.strftime("%A")\<close> (C locale) and \<^verbatim>\<open>d.strftime("%A").lower()\<close>.\<close>

definition strftime_A :: "pdate \<Rightarrow> string" where
  "strftime_A d =
     [''Monday'', ''Tuesday'', ''Wednesday'', ''Thursday'', ''Friday'', ''Saturday'', ''Sunday'']
       ! nat (weekday d)"

definition lower_char :: "char \<Rightarrow> char" where
  "lower_char c = (let n = (of_char c :: nat) in if 65 \<le> n \<and> n \<le> 90 then char_of (n + 32) else c)"

definition str_lower :: "string \<Rightarrow> string" where
  "str_lower s = map lower_char s"

text \<open>
  \<^verbatim>\<open>d.strftime("%Y-%m-%d")\<close>, the year zero-filled to four digits as the library
  documents it (some C libraries leave out the zeros of years below 1000; that is not
  modelled).
\<close>

definition strftime_Ymd :: "pdate \<Rightarrow> string" where
  "strftime_Ymd d = pad4 (year d) @ ''-'' @ pad2 (month d) @ ''-'' @ pad2 (day d)"

text \<open>
  The day field of \<^verbatim>\<open>"%Y-%m-%d"\<close>: \<^verbatim>\<open>3[0-1]|[1-2]\d|0[1-9]|[1-9]| [1-9]\<close> at the end
  of the pattern, the whole string consumed.  A blank before one digit is accepted.
\<close>

definition day_field :: "string \<Rightarrow> int option" where
  "day_field s =
     (case s of
        [a] \<Rightarrow> (case digit_of a of Some x \<Rightarrow> if 1 \<le> x then Some x else None | None \<Rightarrow> None)
      | [a, b] \<Rightarrow>
          if a = CHR '' '' then
            (case digit_of b of Some y \<Rightarrow> if 1 \<le> y then Some y else None | None \<Rightarrow> None)
          else
            (case (digit_of a, digit_of b) of
               (Some x, Some y) \<Rightarrow>
                 if 1 \<le> 10 * x + y \<and> 10 * x + y \<le> 31 then Some (10 * x + y) else None
             | _ \<Rightarrow> None)
      | _ \<Rightarrow> None)"

text \<open>
  The month field \<^verbatim>\<open>1[0-2]|0[1-9]|[1-9]\<close> followed by a hyphen, then the day field.
  Returns month and day.
\<close>

definition month_day_fields :: "string \<Rightarrow> (int \<times> int) option" where
  "month_day_fields s =
     (case s of
        a # b # rest \<Rightarrow>
          if b = CHR ''-'' then
            (case digit_of a of
               Some x \<Rightarrow> if 1 \<le> x then map_option (Pair x) (day_field rest) else None
             | None \<Rightarrow> None)
          else
            (case (digit_of a, digit_of b, rest) of
               (Some x, Some y, c # rest') \<Rightarrow>
                 if c = CHR ''-'' \<and> 1 \<le> 10 * x + y \<and> 10 * x + y \<le> 12
                 then map_option (Pair (10 * x + y)) (day_field rest') else None
             | _ \<Rightarrow> None)
      | _ \<Rightarrow> None)"

text \<open>
  \<^verbatim>\<open>datetime.strptime(s, "%Y-%m-%d").date()\<close>: four digits, a hyphen, month, a hyphen,
  day; then the date must exist (year 0 and 30 February are \<^verbatim>\<open>ValueError\<close>).
  \<open>None\<close> is the \<^verbatim>\<open>ValueError\<close>.
\<close>

definition strptime_Ymd :: "string \<Rightarrow> pdate option" where
  "strptime_Ymd s =
     (case s of
        y1 # y2 # y3 # y4 # h # rest \<Rightarrow>
          (case (digit_of y1, digit_of y2, digit_of y3, digit_of y4) of
             (Some a, Some b, Some c, Some e) \<Rightarrow>
               if h = CHR ''-'' then
                 (case month_day_fields rest of
                    Some (m, dd) \<Rightarrow>
                      (let d = \<lparr>year = 1000 * a + 100 * b + 10 * c + e, month = m, day = dd\<rparr>
                       in if valid_date d then Some d else None)
                  | None \<Rightarrow> None)
               else None
           | _ \<Rightarrow> None)
      | _ \<Rightarrow> None)"

text \<open>
  \<^verbatim>\<open>d + timedelta(days=1)\<close>; past 9999-12-31 the library raises \<^verbatim>\<open>OverflowError\<close>.
\<close>

definition next_day :: "pdate \<Rightarrow> exn + pdate" where
  "next_day d =
     (if day d < days_in_month (year d) (month d) then Inr (d\<lparr>day := day d + 1\<rparr>)
      else if month d < 12 then Inr (d\<lparr>month := month d + 1, day := 1\<rparr>)
      else if year d < 9999 then Inr \<lparr>year = year d + 1, month = 1, day = 1\<rparr>
      else Inl OverflowError)"

text \<open>\<^verbatim>\<open>d + timedelta(days=n)\<close> for \<open>n \<ge> 0\<close>.\<close>

fun add_days :: "pdate \<Rightarrow> nat \<Rightarrow> exn + pdate" where
  "add_days d 0 = Inr d"
| "add_days d (Suc n) = (case next_day d of Inl e \<Rightarrow> Inl e | Inr d' \<Rightarrow> add_days d' n)"


section \<open>The schedule and the booking store\<close>

text \<open>
  The schedule document (\<^verbatim>\<open>schedule_data\<close>, loaded from the JSON file): working hours
  per lower-case weekday name (the JSON object as its list of key/value pairs, read with
  \<open>map_of\<close>), the lunch break, the slot granularity and the buffer time.
  A key that is absent is \<open>None\<close>.  (A key that is present with the value
  \<^verbatim>\<open>null\<close> is not a schedule document of the data model; \<^verbatim>\<open>dict.get\<close> would return
  the \<^verbatim>\<open>null\<close> and not the default.)
\<close>

record hours =
  wh_start :: string
  wh_end :: string

record schedule =
  working_hours :: "(string \<times> hours) list"
  lunch_break :: "hours option"
  slot_duration_minutes :: "int option"
  buffer_time_minutes :: "int option"

text \<open>A booking record, as \<^verbatim>\<open>book_appointment\<close> builds it and the file stores it.\<close>

record booking =
  booking_id :: string
  date :: string
  start_time :: string
  end_time :: string
  appointment_type :: string
  patient_name :: string
  patient_email :: string
  patient_phone :: string
  reason :: string
  status :: string
  confirmation_code :: string
  created_at :: string

text \<open>
  The state of a \<^verbatim>\<open>CalendlyMockAPI\<close>.  Booking records are mutable dictionaries that
  the list \<^verbatim>\<open>self.bookings\<close> refers to, and \<^verbatim>\<open>cancel_booking\<close> appends a
  reference that is already in the list, so the objects live in a store and the list holds
  addresses (indices into the store).  \<open>saved\<close> is the \<^verbatim>\<open>existing_appointments\<close>
  array of the schedule file as last written.  File writes are taken to succeed.
\<close>

record calendly_api =
  schedule_data :: schedule
  store :: "booking list"
  bookings :: "nat list"
  saved :: "booking list"

definition booking_at :: "calendly_api \<Rightarrow> nat \<Rightarrow> booking" where
  "booking_at st a = store st ! a"

text \<open>The records that \<^verbatim>\<open>self.bookings\<close> holds, in list order.\<close>

definition booking_list :: "calendly_api \<Rightarrow> booking list" where
  "booking_list st = map (booking_at st) (bookings st)"

text \<open>\<^verbatim>\<open>self.appointment_durations\<close> and \<^verbatim>\<open>self.appointment_durations.get(t, 30)\<close>.\<close>

definition appointment_durations :: "string \<Rightarrow> int option" where
  "appointment_durations =
     map_of [(''consultation'', 30), (''followup'', 15), (''physical'', 45), (''specialist'', 60)]"

definition duration_of :: "string \<Rightarrow> int" where
  "duration_of t = (case appointment_durations t of Some d \<Rightarrow> d | None \<Rightarrow> 30)"

text \<open>\<^verbatim>\<open>_save_booking\<close>: append the reference, then rewrite the file from the list.\<close>

definition save_booking :: "calendly_api \<Rightarrow> nat \<Rightarrow> calendly_api" where
  "save_booking st a =
     (let st' = st\<lparr>bookings := bookings st @ [a]\<rparr>
      in st'\<lparr>saved := booking_list st'\<rparr>)"

definition is_working_day :: "calendly_api \<Rightarrow> pdate \<Rightarrow> bool" where
  "is_working_day st check_date \<longleftrightarrow>
     map_of (working_hours (schedule_data st)) (str_lower (strftime_A check_date)) \<noteq> None"

definition get_working_hours :: "calendly_api \<Rightarrow> pdate \<Rightarrow> hours option" where
  "get_working_hours st check_date =
     map_of (working_hours (schedule_data st)) (str_lower (strftime_A check_date))"

definition get_lunch_break :: "calendly_api \<Rightarrow> hours" where
  "get_lunch_break st =
     (case lunch_break (schedule_data st) of
        None \<Rightarrow> \<lparr>wh_start = ''12:00'', wh_end = ''13:00''\<rparr>
      | Some l \<Rightarrow> l)"

section \<open>Availability\<close>

text \<open>
  The loop over \<^verbatim>\<open>self.bookings\<close> at the end of \<^verbatim>\<open>_is_slot_available\<close>:
  a booking counts when its date string equals \<open>date_str\<close> and its status is
  \<^verbatim>\<open>"confirmed"\<close>; its times are parsed (which may raise) and compared.
\<close>

fun check_existing :: "string \<Rightarrow> int \<Rightarrow> int \<Rightarrow> booking list \<Rightarrow> exn + bool" where
  "check_existing date_str slot_start_mins slot_end_mins [] = Inr True"
| "check_existing date_str slot_start_mins slot_end_mins (b # bs) =
     (if date b = date_str \<and> status b = ''confirmed'' then
        (case parse_time (start_time b) of
           Inl e \<Rightarrow> Inl e
         | Inr booking_start \<Rightarrow>
             (case parse_time (end_time b) of
                Inl e \<Rightarrow> Inl e
              | Inr booking_end \<Rightarrow>
                  if \<not> (slot_end_mins \<le> time_to_minutes booking_start
                        \<or> slot_start_mins \<ge> time_to_minutes booking_end)
                  then Inr False
                  else check_existing date_str slot_start_mins slot_end_mins bs))
      else check_existing date_str slot_start_mins slot_end_mins bs)"

text \<open>\<^verbatim>\<open>_is_slot_available\<close>\<close>

definition is_slot_available :: "calendly_api \<Rightarrow> pdate \<Rightarrow> ptime \<Rightarrow> int \<Rightarrow> exn + bool" where
  "is_slot_available st check_date slot_start duration =
     (if \<not> is_working_day st check_date then Inr False
      else case get_working_hours st check_date of
        None \<Rightarrow> Inr False
      | Some wh \<Rightarrow>
       (case parse_time (wh_start wh) of
          Inl e \<Rightarrow> Inl e
        | Inr work_start \<Rightarrow>
         (case parse_time (wh_end wh) of
            Inl e \<Rightarrow> Inl e
          | Inr work_end \<Rightarrow>
             (let slot_start_mins = time_to_minutes slot_start;
                  slot_end_mins = slot_start_mins + duration;
                  work_start_mins = time_to_minutes work_start;
                  work_end_mins = time_to_minutes work_end
              in if slot_start_mins < work_start_mins \<or> slot_end_mins > work_end_mins then Inr False
                 else
                  (case parse_time (wh_start (get_lunch_break st)) of
                     Inl e \<Rightarrow> Inl e
                   | Inr lunch_start \<Rightarrow>
                    (case parse_time (wh_end (get_lunch_break st)) of
                       Inl e \<Rightarrow> Inl e
                     | Inr lunch_end \<Rightarrow>
                        if \<not> (slot_end_mins \<le> time_to_minutes lunch_start
                              \<or> slot_start_mins \<ge> time_to_minutes lunch_end)
                        then Inr False
                        else check_existing (strftime_Ymd check_date) slot_start_mins
                               slot_end_mins (booking_list st)))))))"

record slot =
  slot_start_time :: string
  slot_end_time :: string
  available :: bool

record availability =
  av_date :: string
  available_slots :: "slot list"

text \<open>
  The \<^verbatim>\<open>while\<close> loop of \<^verbatim>\<open>get_availability\<close>.  The stride comes from the schedule
  file; with a stride of 0 the loop never ends, so the loop is a partial function and
  \<open>None\<close> is "does not return".  With a negative stride \<^verbatim>\<open>_minutes_to_time\<close> raises
  once the minutes are negative.
\<close>

partial_function (option) slot_loop ::
  "calendly_api \<Rightarrow> pdate \<Rightarrow> int \<Rightarrow> int \<Rightarrow> int \<Rightarrow> int \<Rightarrow> slot list \<Rightarrow> (exn + slot list) option"
where
  "slot_loop st check_date duration slot_duration end_mins current_mins acc =
     (if current_mins + duration \<le> end_mins then
        (case minutes_to_time current_mins of
           Inl e \<Rightarrow> Some (Inl e)
         | Inr slot_start \<Rightarrow>
          (case minutes_to_time (current_mins + duration) of
             Inl e \<Rightarrow> Some (Inl e)
           | Inr slot_end \<Rightarrow>
            (case is_slot_available st check_date slot_start duration of
               Inl e \<Rightarrow> Some (Inl e)
             | Inr is_available \<Rightarrow>
                 slot_loop st check_date duration slot_duration end_mins
                   (current_mins + slot_duration)
                   (acc @ [\<lparr>slot_start_time = strftime_HM slot_start,
                            slot_end_time = strftime_HM slot_end,
                            available = is_available\<rparr>]))))
      else Some (Inr acc))"

declare slot_loop.simps [code]

text \<open>
  \<^verbatim>\<open>get_availability\<close>.  \<open>today\<close> is \<^verbatim>\<open>datetime.now(self.timezone).date()\<close>, read
  from the clock.  The result is \<open>None\<close> when the call does not return, \<open>Some (Inl e)\<close>
  when it raises, \<open>Some (Inr r)\<close> when it returns \<open>r\<close>.
\<close>

definition get_availability ::
  "calendly_api \<Rightarrow> pdate \<Rightarrow> string \<Rightarrow> string \<Rightarrow> (exn + availability) option" where
  "get_availability st today date_str appt_type =
     (case strptime_Ymd date_str of
        None \<Rightarrow> Some (Inr \<lparr>av_date = date_str, available_slots = []\<rparr>)
      | Some check_date \<Rightarrow>
          if date_less check_date today
          then Some (Inr \<lparr>av_date = date_str, available_slots = []\<rparr>)
          else
           (let duration = duration_of appt_type
            in case get_working_hours st check_date of
                 None \<Rightarrow> Some (Inr \<lparr>av_date = date_str, available_slots = []\<rparr>)
               | Some wh \<Rightarrow>
                  (case parse_time (wh_start wh) of
                     Inl e \<Rightarrow> Some (Inl e)
                   | Inr work_start \<Rightarrow>
                    (case parse_time (wh_end wh) of
                       Inl e \<Rightarrow> Some (Inl e)
                     | Inr work_end \<Rightarrow>
                        (let slot_duration =
                               (case slot_duration_minutes (schedule_data st) of
                                  None \<Rightarrow> 15 | Some g \<Rightarrow> g)
                         in case slot_loop st check_date duration slot_duration
                                   (time_to_minutes work_end) (time_to_minutes work_start) [] of
                              None \<Rightarrow> None
                            | Some (Inl e) \<Rightarrow> Some (Inl e)
                            | Some (Inr slots) \<Rightarrow>
                                Some (Inr \<lparr>av_date = date_str, available_slots = slots\<rparr>))))))"


text \<open>
  \<^verbatim>\<open>int(slot['start_time'].split(':')[0])\<close>: the text before the first colon, read
  as a decimal number.  The strings that reach this point are \<^verbatim>\<open>strftime\<close> output, two
  digits; the signs, blanks and underscores that \<^verbatim>\<open>int\<close> would also accept never occur
  and are not modelled (they are \<^verbatim>\<open>ValueError\<close> here).
\<close>

definition split_colon_first :: "string \<Rightarrow> string" where
  "split_colon_first s = takeWhile (\<lambda>c. c \<noteq> CHR '':'') s"

definition py_int :: "string \<Rightarrow> exn + int" where
  "py_int s =
     (if s \<noteq> [] \<and> list_all (\<lambda>c. digit_of c \<noteq> None) s
      then Inr (foldl (\<lambda>n c. 10 * n + the (digit_of c)) 0 s)
      else Inl ValueError)"

text \<open>The filtering loop of \<^verbatim>\<open>get_available_slots_only\<close>, for a given preference.\<close>

fun filter_slots :: "string \<Rightarrow> slot list \<Rightarrow> exn + slot list" where
  "filter_slots time_preference [] = Inr []"
| "filter_slots time_preference (s # rest) =
     (case py_int (split_colon_first (slot_start_time s)) of
        Inl e \<Rightarrow> Inl e
      | Inr h \<Rightarrow>
         (case filter_slots time_preference rest of
            Inl e \<Rightarrow> Inl e
          | Inr filtered \<Rightarrow>
              if time_preference = ''morning'' \<and> 6 \<le> h \<and> h < 12 then Inr (s # filtered)
              else if time_preference = ''afternoon'' \<and> 12 \<le> h \<and> h < 17 then Inr (s # filtered)
              else if time_preference = ''evening'' \<and> 17 \<le> h \<and> h < 22 then Inr (s # filtered)
              else Inr filtered))"

text \<open>
  \<^verbatim>\<open>get_available_slots_only\<close>.  \<open>time_preference\<close> is an optional string; Python's
  \<^verbatim>\<open>if time_preference and available_slots\<close> holds when it is a non-empty string and
  the list is not empty.
\<close>

definition get_available_slots_only ::
  "calendly_api \<Rightarrow> pdate \<Rightarrow> string \<Rightarrow> string \<Rightarrow> string option \<Rightarrow> (exn + slot list) option" where
  "get_available_slots_only st today date_str appt_type time_preference =
     (case get_availability st today date_str appt_type of
        None \<Rightarrow> None
      | Some (Inl e) \<Rightarrow> Some (Inl e)
      | Some (Inr availability) \<Rightarrow>
         (let avail = filter available (available_slots availability)
          in case time_preference of
               None \<Rightarrow> Some (Inr avail)
             | Some pref \<Rightarrow>
                 if pref \<noteq> [] \<and> avail \<noteq> [] then Some (filter_slots pref avail)
                 else Some (Inr avail)))"

section \<open>Suggestions\<close>

record check_result =
  cr_date :: string
  cr_appointment_type :: string
  cr_time_preference :: "string option"
  cr_available_slots :: "slot list"
  slots_count :: nat

text \<open>\<^verbatim>\<open>AvailabilityTool.check_availability\<close>\<close>

definition check_availability ::
  "calendly_api \<Rightarrow> pdate \<Rightarrow> string \<Rightarrow> string \<Rightarrow> string option \<Rightarrow> (exn + check_result) option" where
  "check_availability st today date_str appt_type time_preference =
     (case get_available_slots_only st today date_str appt_type time_preference of
        None \<Rightarrow> None
      | Some (Inl e) \<Rightarrow> Some (Inl e)
      | Some (Inr avail) \<Rightarrow>
          Some (Inr \<lparr>cr_date = date_str, cr_appointment_type = appt_type,
                     cr_time_preference = time_preference, cr_available_slots = avail,
                     slots_count = length avail\<rparr>))"

record date_info =
  di_date :: string
  di_day_name :: string
  di_available_slots :: "slot list"
  total_slots :: nat

text \<open>
  The \<^verbatim>\<open>for i in range(1, days_to_check + 1)\<close> loop of
  \<^verbatim>\<open>find_next_available_dates\<close> over the offsets that remain.  \<open>today\<close> is the
  engine's clock (in the configured timezone), \<open>local_today\<close> is
  \<^verbatim>\<open>datetime.now().date()\<close>, the tool's own clock; both are read once.
\<close>

fun scan_days ::
  "calendly_api \<Rightarrow> pdate \<Rightarrow> pdate \<Rightarrow> string \<Rightarrow> int \<Rightarrow> string option \<Rightarrow> int list \<Rightarrow>
   date_info list \<Rightarrow> (exn + date_info list) option" where
  "scan_days st today local_today appt_type max_dates time_preference [] available_dates =
     Some (Inr available_dates)"
| "scan_days st today local_today appt_type max_dates time_preference (i # rest) available_dates =
     (case add_days local_today (nat i) of
        Inl e \<Rightarrow> Some (Inl e)
      | Inr check_date \<Rightarrow>
         (case check_availability st today (strftime_Ymd check_date) appt_type time_preference of
            None \<Rightarrow> None
          | Some (Inl e) \<Rightarrow> Some (Inl e)
          | Some (Inr result) \<Rightarrow>
              if slots_count result > 0 then
                (let available_dates' = available_dates @
                       [\<lparr>di_date = strftime_Ymd check_date,
                         di_day_name = strftime_A check_date,
                         di_available_slots = take 5 (cr_available_slots result),
                         total_slots = slots_count result\<rparr>]
                 in if int (length available_dates') \<ge> max_dates then Some (Inr available_dates')
                    else scan_days st today local_today appt_type max_dates time_preference rest
                           available_dates')
              else scan_days st today local_today appt_type max_dates time_preference rest
                     available_dates))"

text \<open>\<^verbatim>\<open>AvailabilityTool.find_next_available_dates\<close>\<close>

definition find_next_available_dates ::
  "calendly_api \<Rightarrow> pdate \<Rightarrow> pdate \<Rightarrow> string \<Rightarrow> int \<Rightarrow> int \<Rightarrow> string option \<Rightarrow>
   (exn + date_info list) option" where
  "find_next_available_dates st today local_today appt_type days_to_check max_dates time_preference =
     scan_days st today local_today appt_type max_dates time_preference [1..days_to_check] []"

record suggestion =
  sg_date :: string
  sg_start_time :: string
  sg_end_time :: string
  sg_day_name :: string

text \<open>The inner \<^verbatim>\<open>for slot in date_info['available_slots']\<close> loop, with its \<^verbatim>\<open>break\<close>.\<close>

fun collect_slots :: "int \<Rightarrow> date_info \<Rightarrow> slot list \<Rightarrow> suggestion list \<Rightarrow> suggestion list" where
  "collect_slots num_suggestions date_info [] suggestions = suggestions"
| "collect_slots num_suggestions date_info (s # rest) suggestions =
     (if int (length suggestions) \<ge> num_suggestions then suggestions
      else collect_slots num_suggestions date_info rest
             (suggestions @ [\<lparr>sg_date = di_date date_info,
                               sg_start_time = slot_start_time s,
                               sg_end_time = slot_end_time s,
                               sg_day_name = di_day_name date_info\<rparr>]))"

text \<open>The outer \<^verbatim>\<open>for date_info in available_dates\<close> loop, with its \<^verbatim>\<open>break\<close>.\<close>

fun collect_dates :: "int \<Rightarrow> date_info list \<Rightarrow> suggestion list \<Rightarrow> suggestion list" where
  "collect_dates num_suggestions [] suggestions = suggestions"
| "collect_dates num_suggestions (date_info # rest) suggestions =
     (let suggestions' =
            collect_slots num_suggestions date_info (di_available_slots date_info) suggestions
      in if int (length suggestions') \<ge> num_suggestions then suggestions'
         else collect_dates num_suggestions rest suggestions')"

text \<open>The slice \<^verbatim>\<open>xs[:n]\<close>; a negative \<open>n\<close> counts from the end.\<close>

definition slice_to :: "int \<Rightarrow> 'a list \<Rightarrow> 'a list" where
  "slice_to n xs = (if n < 0 then take (length xs - nat (- n)) xs else take (nat n) xs)"

text \<open>
  \<^verbatim>\<open>AvailabilityTool.suggest_slots\<close>.  \<^verbatim>\<open>if preferred_date\<close> holds for a non-empty
  string.  With a preferred date, the weekday name is computed by parsing the date again
  in each iteration, so only when the sliced list is not empty.
\<close>

definition suggest_slots ::
  "calendly_api \<Rightarrow> pdate \<Rightarrow> pdate \<Rightarrow> string option \<Rightarrow> string \<Rightarrow> string option \<Rightarrow> int \<Rightarrow>
   (exn + suggestion list) option" where
  "suggest_slots st today local_today preferred_date appt_type time_preference num_suggestions =
     (if preferred_date \<noteq> None \<and> preferred_date \<noteq> Some [] then
        (case check_availability st today (the preferred_date) appt_type time_preference of
           None \<Rightarrow> None
         | Some (Inl e) \<Rightarrow> Some (Inl e)
         | Some (Inr result) \<Rightarrow>
             if slots_count result > 0 then
               (if slice_to num_suggestions (cr_available_slots result) = [] then Some (Inr [])
                else case strptime_Ymd (the preferred_date) of
                  None \<Rightarrow> Some (Inl ValueError)
                | Some d \<Rightarrow>
                    Some (Inr (map (\<lambda>s. \<lparr>sg_date = the preferred_date,
                                          sg_start_time = slot_start_time s,
                                          sg_end_time = slot_end_time s,
                                          sg_day_name = strftime_A d\<rparr>)
                                 (slice_to num_suggestions (cr_available_slots result)))))
             else Some (Inr []))
      else
        (case find_next_available_dates st today local_today appt_type 14 5 time_preference of
           None \<Rightarrow> None
         | Some (Inl e) \<Rightarrow> Some (Inl e)
         | Some (Inr available_dates) \<Rightarrow>
             Some (Inr (collect_dates num_suggestions available_dates []))))"

section \<open>Booking\<close>

record patient =
  name :: string
  email :: string
  phone :: string

record confirmed_details =
  cd_date :: string
  cd_start_time :: string
  cd_end_time :: string
  cd_appointment_type :: string
  cd_duration :: int
  cd_patient :: patient
  cd_reason :: string

datatype details = ErrorDetails string | BookingDetails confirmed_details

record booking_result =
  br_booking_id :: "string option"
  br_status :: string
  br_confirmation_code :: "string option"
  br_details :: details

text \<open>
  What \<^verbatim>\<open>book_appointment\<close> takes from its environment: the generated booking id
  (\<^verbatim>\<open>"APPT-" + date + "-" + six characters of a uuid4\<close>), the confirmation code
  (eight characters of another uuid4) and the creation timestamp.
\<close>

record generated =
  gen_booking_id :: string
  gen_confirmation_code :: string
  gen_created_at :: string

definition failed_result :: "string \<Rightarrow> booking_result" where
  "failed_result msg =
     \<lparr>br_booking_id = None, br_status = ''failed'', br_confirmation_code = None,
      br_details = ErrorDetails msg\<rparr>"

text \<open>
  \<^verbatim>\<open>book_appointment\<close>: returns the result and the new state, or raises.  The
  \<^verbatim>\<open>try\<close> block covers the two parses only and catches \<^verbatim>\<open>ValueError\<close>.
\<close>

definition book_appointment ::
  "calendly_api \<Rightarrow> generated \<Rightarrow> string \<Rightarrow> string \<Rightarrow> string \<Rightarrow> patient \<Rightarrow> string \<Rightarrow>
   exn + (booking_result \<times> calendly_api)" where
  "book_appointment st g appt_type date_str start_time_str pat reason_str =
     (case strptime_Ymd date_str of
        None \<Rightarrow> Inr (failed_result ''Invalid date or time format'', st)
      | Some check_date \<Rightarrow>
         (case parse_time start_time_str of
            Inl ValueError \<Rightarrow> Inr (failed_result ''Invalid date or time format'', st)
          | Inl e \<Rightarrow> Inl e
          | Inr slot_start \<Rightarrow>
             (let duration = duration_of appt_type
              in case is_slot_available st check_date slot_start duration of
                   Inl e \<Rightarrow> Inl e
                 | Inr False \<Rightarrow> Inr (failed_result ''Time slot is not available'', st)
                 | Inr True \<Rightarrow>
                    (let end_mins = time_to_minutes slot_start + duration
                     in case minutes_to_time end_mins of
                          Inl e \<Rightarrow> Inl e
                        | Inr slot_end \<Rightarrow>
                           (let b = \<lparr>booking_id = gen_booking_id g,
                                     date = date_str,
                                     start_time = start_time_str,
                                     end_time = strftime_HM slot_end,
                                     appointment_type = appt_type,
                                     patient_name = name pat,
                                     patient_email = email pat,
                                     patient_phone = phone pat,
                                     reason = reason_str,
                                     status = ''confirmed'',
                                     confirmation_code = gen_confirmation_code g,
                                     created_at = gen_created_at g\<rparr>;
                                a = length (store st);
                                st' = save_booking (st\<lparr>store := store st @ [b]\<rparr>) a
                            in Inr (\<lparr>br_booking_id = Some (gen_booking_id g),
                                     br_status = ''confirmed'',
                                     br_confirmation_code = Some (gen_confirmation_code g),
                                     br_details = BookingDetails
                                       \<lparr>cd_date = date_str,
                                        cd_start_time = start_time_str,
                                        cd_end_time = strftime_HM slot_end,
                                        cd_appointment_type = appt_type,
                                        cd_duration = duration,
                                        cd_patient = pat,
                                        cd_reason = reason_str\<rparr>\<rparr>, st'))))))"

text \<open>
  The search loop shared by \<^verbatim>\<open>get_booking\<close> and \<^verbatim>\<open>cancel_booking\<close>: the first
  reference in the list whose record has the given id.
\<close>

fun find_booking :: "calendly_api \<Rightarrow> string \<Rightarrow> nat list \<Rightarrow> nat option" where
  "find_booking st bid [] = None"
| "find_booking st bid (a # rest) =
     (if booking_id (booking_at st a) = bid then Some a else find_booking st bid rest)"

text \<open>\<^verbatim>\<open>get_booking\<close>: the record found, or \<open>None\<close>.\<close>

definition get_booking :: "calendly_api \<Rightarrow> string \<Rightarrow> booking option" where
  "get_booking st bid = map_option (booking_at st) (find_booking st bid (bookings st))"

text \<open>
  \<^verbatim>\<open>cancel_booking\<close>: the record found is updated in place and its reference is
  passed to \<^verbatim>\<open>_save_booking\<close>.
\<close>

definition cancel_booking :: "calendly_api \<Rightarrow> string \<Rightarrow> bool \<times> calendly_api" where
  "cancel_booking st bid =
     (case find_booking st bid (bookings st) of
        None \<Rightarrow> (False, st)
      | Some a \<Rightarrow>
          (True,
           save_booking
             (st\<lparr>store := (store st)[a := (booking_at st a)\<lparr>status := ''cancelled''\<rparr>]\<rparr>) a))"


section \<open>Allocated references and concrete clinics\<close>

text \<open>Every reference in \<^verbatim>\<open>self.bookings\<close> points to an allocated record.\<close>

definition refs_ok :: "calendly_api \<Rightarrow> bool" where
  "refs_ok st \<longleftrightarrow> list_all (\<lambda>a. a < length (store st)) (bookings st)"

text \<open>
  The clinic of the specification's scenarios: Monday to Friday 09:00 to 17:00, lunch
  12:00 to 13:00, a 15 minute grid, no bookings yet.
\<close>

definition clinic_hours :: hours where
  "clinic_hours = \<lparr>wh_start = ''09:00'', wh_end = ''17:00''\<rparr>"

definition clinic_schedule :: schedule where
  "clinic_schedule =
     \<lparr>working_hours =
        [(''monday'', clinic_hours), (''tuesday'', clinic_hours), (''wednesday'', clinic_hours),
         (''thursday'', clinic_hours), (''friday'', clinic_hours)],
      lunch_break = Some \<lparr>wh_start = ''12:00'', wh_end = ''13:00''\<rparr>,
      slot_duration_minutes = Some 15,
      buffer_time_minutes = Some 5\<rparr>"

definition clinic :: calendly_api where
  "clinic = \<lparr>schedule_data = clinic_schedule, store = [], bookings = [], saved = []\<rparr>"

definition test_patient :: patient where
  "test_patient = \<lparr>name = ''Test Patient'', email = ''test@example.com'', phone = ''+1-555-0199''\<rparr>"

definition gen1 :: generated where
  "gen1 = \<lparr>gen_booking_id = ''APPT-20300101-A1B2C3'', gen_confirmation_code = ''1A2B3C4D'',
           gen_created_at = ''2030-01-01T08:00:00+00:00''\<rparr>"

definition gen2 :: generated where
  "gen2 = \<lparr>gen_booking_id = ''APPT-20300101-D4E5F6'', gen_confirmation_code = ''5E6F7A8B'',
           gen_created_at = ''2030-01-01T08:01:00+00:00''\<rparr>"

text \<open>The booking that \<open>gen1\<close> yields for a consultation on Monday 2030-01-07 at 10:00.\<close>

definition booking1 :: booking where
  "booking1 =
     \<lparr>booking_id = ''APPT-20300101-A1B2C3'', date = ''2030-01-07'', start_time = ''10:00'',
      end_time = ''10:30'', appointment_type = ''consultation'',
      patient_name = ''Test Patient'', patient_email = ''test@example.com'',
      patient_phone = ''+1-555-0199'', reason = ''Checkup'', status = ''confirmed'',
      confirmation_code = ''1A2B3C4D'', created_at = ''2030-01-01T08:00:00+00:00''\<rparr>"

definition clinic1 :: calendly_api where
  "clinic1 = clinic\<lparr>store := [booking1], bookings := [0], saved := [booking1]\<rparr>"

text \<open>The confirmation that goes with \<open>booking1\<close>.\<close>

definition confirmation1 :: booking_result where
  "confirmation1 =
     \<lparr>br_booking_id = Some ''APPT-20300101-A1B2C3'', br_status = ''confirmed'',
      br_confirmation_code = Some ''1A2B3C4D'',
      br_details = BookingDetails
        \<lparr>cd_date = ''2030-01-07'', cd_start_time = ''10:00'', cd_end_time = ''10:30'',
         cd_appointment_type = ''consultation'', cd_duration = 30,
         cd_patient = test_patient, cd_reason = ''Checkup''\<rparr>\<rparr>"

text \<open>
  A smaller clinic for the examples that scan many days: Monday and Tuesday 09:00 to
  12:00, a 30 minute grid, the default lunch break.
\<close>

definition small_schedule :: schedule where
  "small_schedule =
     \<lparr>working_hours =
        [(''monday'', \<lparr>wh_start = ''09:00'', wh_end = ''12:00''\<rparr>),
         (''tuesday'', \<lparr>wh_start = ''09:00'', wh_end = ''12:00''\<rparr>)],
      lunch_break = None,
      slot_duration_minutes = Some 30,
      buffer_time_minutes = None\<rparr>"

definition small_clinic :: calendly_api where
  "small_clinic = \<lparr>schedule_data = small_schedule, store = [], bookings = [], saved = []\<rparr>"

text \<open>
  The state of \<open>clinic\<close> after a consultation was booked with the date written
  \<^verbatim>\<open>"2030-1-7"\<close> (no leading zeros), at 10:00.
\<close>

definition booking1_unpadded :: booking where
  "booking1_unpadded = booking1\<lparr>date := ''2030-1-7''\<rparr>"

definition clinic1_unpadded :: calendly_api where
  "clinic1_unpadded =
     clinic\<lparr>store := [booking1_unpadded], bookings := [0], saved := [booking1_unpadded]\<rparr>"

definition confirmation1_unpadded :: booking_result where
  "confirmation1_unpadded =
     \<lparr>br_booking_id = Some ''APPT-20300101-A1B2C3'', br_status = ''confirmed'',
      br_confirmation_code = Some ''1A2B3C4D'',
      br_details = BookingDetails
        \<lparr>cd_date = ''2030-1-7'', cd_start_time = ''10:00'', cd_end_time = ''10:30'',
         cd_appointment_type = ''consultation'', cd_duration = 30,
         cd_patient = test_patient, cd_reason = ''Checkup''\<rparr>\<rparr>"

text \<open>And after the same consultation was booked once more, with \<open>gen2\<close>.\<close>

definition booking2_unpadded :: booking where
  "booking2_unpadded =
     booking1_unpadded\<lparr>booking_id := ''APPT-20300101-D4E5F6'', confirmation_code := ''5E6F7A8B'',
       created_at := ''2030-01-01T08:01:00+00:00''\<rparr>"

definition clinic2_unpadded :: calendly_api where
  "clinic2_unpadded =
     clinic\<lparr>store := [booking1_unpadded, booking2_unpadded], bookings := [0, 1],
       saved := [booking1_unpadded, booking2_unpadded]\<rparr>"

definition confirmation2_unpadded :: booking_result where
  "confirmation2_unpadded =
     confirmation1_unpadded\<lparr>br_booking_id := Some ''APPT-20300101-D4E5F6'',
       br_confirmation_code := Some ''5E6F7A8B''\<rparr>"

definition new_year_2030 :: pdate where
  "new_year_2030 = \<lparr>year = 2030, month = 1, day = 1\<rparr>"

text \<open>
  A second patient, and the follow-up that \<open>gen2\<close> yields for them in \<open>clinic1\<close> on the
  same Monday at 11:00, with the state and the confirmation that go with it.
\<close>

definition other_patient :: patient where
  "other_patient =
     \<lparr>name = ''Someone Else'', email = ''else@example.com'', phone = ''+1-555-0100''\<rparr>"

definition booking2 :: booking where
  "booking2 =
     \<lparr>booking_id = ''APPT-20300101-D4E5F6'', date = ''2030-01-07'', start_time = ''11:00'',
      end_time = ''11:15'', appointment_type = ''followup'',
      patient_name = ''Someone Else'', patient_email = ''else@example.com'',
      patient_phone = ''+1-555-0100'', reason = ''Review'', status = ''confirmed'',
      confirmation_code = ''5E6F7A8B'', created_at = ''2030-01-01T08:01:00+00:00''\<rparr>"

definition clinic2 :: calendly_api where
  "clinic2 =
     clinic\<lparr>store := [booking1, booking2], bookings := [0, 1], saved := [booking1, booking2]\<rparr>"

definition confirmation2 :: booking_result where
  "confirmation2 =
     \<lparr>br_booking_id = Some ''APPT-20300101-D4E5F6'', br_status = ''confirmed'',
      br_confirmation_code = Some ''5E6F7A8B'',
      br_details = BookingDetails
        \<lparr>cd_date = ''2030-01-07'', cd_start_time = ''11:00'', cd_end_time = ''11:15'',
         cd_appointment_type = ''followup'', cd_duration = 15,
         cd_patient = other_patient, cd_reason = ''Review''\<rparr>\<rparr>"

text \<open>
  An earlier draw of the generator with the six characters that \<open>gen1\<close> has (the id is
  the day's date and six hexadecimal characters of a random uuid, nothing checks that it
  is new), and what the second patient's follow-up on Tuesday 2030-01-08 at 09:00 looks
  like when it is booked in the empty clinic with that draw.
\<close>

definition gen1_earlier :: generated where
  "gen1_earlier =
     \<lparr>gen_booking_id = ''APPT-20300101-A1B2C3'', gen_confirmation_code = ''9C8D7E6F'',
      gen_created_at = ''2030-01-01T07:30:00+00:00''\<rparr>"

definition booking_other :: booking where
  "booking_other =
     \<lparr>booking_id = ''APPT-20300101-A1B2C3'', date = ''2030-01-08'', start_time = ''09:00'',
      end_time = ''09:15'', appointment_type = ''followup'',
      patient_name = ''Someone Else'', patient_email = ''else@example.com'',
      patient_phone = ''+1-555-0100'', reason = ''Review'', status = ''confirmed'',
      confirmation_code = ''9C8D7E6F'', created_at = ''2030-01-01T07:30:00+00:00''\<rparr>"

definition confirmation_other :: booking_result where
  "confirmation_other =
     \<lparr>br_booking_id = Some ''APPT-20300101-A1B2C3'', br_status = ''confirmed'',
      br_confirmation_code = Some ''9C8D7E6F'',
      br_details = BookingDetails
        \<lparr>cd_date = ''2030-01-08'', cd_start_time = ''09:00'', cd_end_time = ''09:15'',
         cd_appointment_type = ''followup'', cd_duration = 15,
         cd_patient = other_patient, cd_reason = ''Review''\<rparr>\<rparr>"

definition clinic_other :: calendly_api where
  "clinic_other =
     clinic\<lparr>store := [booking_other], bookings := [0], saved := [booking_other]\<rparr>"

text \<open>That follow-up cancelled, and \<open>booking1\<close> then booked under the same id.\<close>

definition booking_other_cancelled :: booking where
  "booking_other_cancelled = booking_other\<lparr>status := ''cancelled''\<rparr>"

definition clinic_other_cancelled :: calendly_api where
  "clinic_other_cancelled =
     clinic\<lparr>store := [booking_other_cancelled], bookings := [0, 0],
       saved := [booking_other_cancelled, booking_other_cancelled]\<rparr>"

definition clinic_collision :: calendly_api where
  "clinic_collision =
     clinic\<lparr>store := [booking_other_cancelled, booking1], bookings := [0, 0, 1],
       saved := [booking_other_cancelled, booking_other_cancelled, booking1]\<rparr>"

text \<open>
  Two clocks late on a Monday evening on the server: the date of the naive
  \<^verbatim>\<open>datetime.now()\<close> is still Monday 2030-01-07, while in the configured timezone of a
  clinic further east it is already Tuesday 2030-01-08.
\<close>

definition server_monday :: pdate where
  "server_monday = \<lparr>year = 2030, month = 1, day = 7\<rparr>"

definition clinic_tuesday :: pdate where
  "clinic_tuesday = \<lparr>year = 2030, month = 1, day = 8\<rparr>"

section \<open>The grid, the suggestion search and the orders, as the statements use them\<close>

text \<open>
  The grid the specification describes: start times from the working-hours start,
  one every \<open>step\<close> minutes, as long as start + duration is at most the
  working-hours end.
\<close>

definition candidate_starts :: "int \<Rightarrow> int \<Rightarrow> int \<Rightarrow> int \<Rightarrow> int list" where
  "candidate_starts work_start work_end duration step =
     (if work_start + duration \<le> work_end
      then map (\<lambda>k. work_start + int k * step)
             [0..<nat ((work_end - duration - work_start) div step + 1)]
      else [])"

text \<open>The slot record for the candidate that starts \<open>m\<close> minutes after midnight.\<close>

definition slot_at :: "calendly_api \<Rightarrow> pdate \<Rightarrow> int \<Rightarrow> int \<Rightarrow> slot" where
  "slot_at st check_date duration m =
     \<lparr>slot_start_time = strftime_HM \<lparr>hour = m div 60, minute = m mod 60\<rparr>,
      slot_end_time = strftime_HM \<lparr>hour = (m + duration) div 60, minute = (m + duration) mod 60\<rparr>,
      available =
        (is_slot_available st check_date \<lparr>hour = m div 60, minute = m mod 60\<rparr> duration = Inr True)\<rparr>"

text \<open>
  The strings that the availability check parses are times: the lunch break, and the
  start and end of every confirmed booking.
\<close>

definition times_ok :: "calendly_api \<Rightarrow> bool" where
  "times_ok st \<longleftrightarrow>
     strptime_HM (wh_start (get_lunch_break st)) \<noteq> None
     \<and> strptime_HM (wh_end (get_lunch_break st)) \<noteq> None
     \<and> list_all (\<lambda>b. status b \<noteq> ''confirmed''
                      \<or> (strptime_HM (start_time b) \<noteq> None \<and> strptime_HM (end_time b) \<noteq> None))
          (booking_list st)"

text \<open>\<^verbatim>\<open>self.schedule_data.get('slot_duration_minutes', 15)\<close>\<close>

definition granularity :: "calendly_api \<Rightarrow> int" where
  "granularity st = (case slot_duration_minutes (schedule_data st) of None \<Rightarrow> 15 | Some g \<Rightarrow> g)"

text \<open>
  The suggestion search, day by day.  \<open>day_date\<close> is the date \<open>i\<close> days after the tool's
  today, \<open>day_slots\<close> the available slots that match the preference on that day (none when
  the query for the day returns no list), \<open>day_info\<close> the entry that
  \<^verbatim>\<open>find_next_available_dates\<close> makes of them, and \<open>qualifying_days\<close> the offsets of
  the first \<open>max_dates\<close> days within \<open>days_to_check\<close> that have such slots.
\<close>

definition day_date :: "pdate \<Rightarrow> int \<Rightarrow> pdate" where
  "day_date local_today i = (case add_days local_today (nat i) of Inr d \<Rightarrow> d | Inl e \<Rightarrow> local_today)"

definition day_slots ::
  "calendly_api \<Rightarrow> pdate \<Rightarrow> pdate \<Rightarrow> string \<Rightarrow> string option \<Rightarrow> int \<Rightarrow> slot list" where
  "day_slots st today local_today appt_type time_preference i =
     (case add_days local_today (nat i) of
        Inl e \<Rightarrow> []
      | Inr d \<Rightarrow>
         (case get_available_slots_only st today (strftime_Ymd d) appt_type time_preference of
            Some (Inr xs) \<Rightarrow> xs
          | _ \<Rightarrow> []))"

definition day_info ::
  "calendly_api \<Rightarrow> pdate \<Rightarrow> pdate \<Rightarrow> string \<Rightarrow> string option \<Rightarrow> int \<Rightarrow> date_info" where
  "day_info st today local_today appt_type time_preference i =
     \<lparr>di_date = strftime_Ymd (day_date local_today i),
      di_day_name = strftime_A (day_date local_today i),
      di_available_slots = take 5 (day_slots st today local_today appt_type time_preference i),
      total_slots = length (day_slots st today local_today appt_type time_preference i)\<rparr>"

definition qualifying_days ::
  "calendly_api \<Rightarrow> pdate \<Rightarrow> pdate \<Rightarrow> string \<Rightarrow> string option \<Rightarrow> int \<Rightarrow> int \<Rightarrow> int list" where
  "qualifying_days st today local_today appt_type time_preference days_to_check max_dates =
     take (nat max_dates)
       (filter (\<lambda>i. day_slots st today local_today appt_type time_preference i \<noteq> [])
          [1..days_to_check])"

text \<open>The suggestion made of a slot of a day.\<close>

definition suggestion_of :: "date_info \<Rightarrow> slot \<Rightarrow> suggestion" where
  "suggestion_of date_info s =
     \<lparr>sg_date = di_date date_info, sg_start_time = slot_start_time s,
      sg_end_time = slot_end_time s, sg_day_name = di_day_name date_info\<rparr>"

text \<open>
  Day-major flattening as the code does it: of each qualifying day, in order, the first
  five matching slots at most.
\<close>

definition flatten_first_five ::
  "calendly_api \<Rightarrow> pdate \<Rightarrow> pdate \<Rightarrow> string \<Rightarrow> string option \<Rightarrow> suggestion list" where
  "flatten_first_five st today local_today appt_type time_preference =
     concat (map (\<lambda>i. map (suggestion_of (day_info st today local_today appt_type time_preference i))
                         (take 5 (day_slots st today local_today appt_type time_preference i)))
               (qualifying_days st today local_today appt_type time_preference 14 5))"


text \<open>
  The order of suggestions: an earlier date, or the same date and an earlier start time,
  both read back from the strings of the suggestion.
\<close>

definition suggestion_before :: "suggestion \<Rightarrow> suggestion \<Rightarrow> bool" where
  "suggestion_before a b =
     (case (strptime_Ymd (sg_date a), strptime_Ymd (sg_date b),
            strptime_HM (sg_start_time a), strptime_HM (sg_start_time b)) of
        (Some da, Some db, Some ta, Some tb) \<Rightarrow>
          date_less da db \<or> (da = db \<and> time_to_minutes ta < time_to_minutes tb)
      | _ \<Rightarrow> False)"

text \<open>The order of slots: an earlier start time, read back from the strings.\<close>

definition slot_before :: "slot \<Rightarrow> slot \<Rightarrow> bool" where
  "slot_before a b =
     (case (strptime_HM (slot_start_time a), strptime_HM (slot_start_time b)) of
        (Some ta, Some tb) \<Rightarrow> time_to_minutes ta < time_to_minutes tb
      | _ \<Rightarrow> False)"

text \<open>
  The three bands of the time-of-day preference, as conditions on the start hour; every
  other preference string matches no hour.
\<close>

definition in_band :: "string \<Rightarrow> int \<Rightarrow> bool" where
  "in_band pref h \<longleftrightarrow>
     pref = ''morning'' \<and> 6 \<le> h \<and> h < 12
     \<or> pref = ''afternoon'' \<and> 12 \<le> h \<and> h < 17
     \<or> pref = ''evening'' \<and> 17 \<le> h \<and> h < 22"

text \<open>The start hour of a slot, read back from its start-time string.\<close>

definition start_hour :: "slot \<Rightarrow> int option" where
  "start_hour s = map_option hour (strptime_HM (slot_start_time s))"

section \<open>Cancelling\<close>

lemma find_booking_Some:
  "find_booking st bid refs = Some a \<Longrightarrow> a \<in> set refs \<and> booking_id (booking_at st a) = bid"
  by (induction refs) (auto split: if_splits)

text \<open>
  C10.  A successful \<^verbatim>\<open>cancel_booking\<close> marks the record it found as cancelled and
  then appends the reference of that same record to \<^verbatim>\<open>self.bookings\<close>: the list is the
  old list followed by an address that was already in it (nothing is removed, the two
  entries are one record, now cancelled), every other record is untouched, the list of
  records is one longer, and the file is rewritten from that longer list.
\<close>

theorem cancel_appends_alias:
  assumes "refs_ok st" and "cancel_booking st bid = (True, st')"
  shows "\<exists>a. a \<in> set (bookings st) \<and> booking_id (booking_at st a) = bid
             \<and> bookings st' = bookings st @ [a]
             \<and> booking_at st' a = (booking_at st a)\<lparr>status := ''cancelled''\<rparr>
             \<and> (\<forall>a'. a' \<noteq> a \<longrightarrow> booking_at st' a' = booking_at st a')
             \<and> count_list (bookings st') a = Suc (count_list (bookings st) a)
             \<and> length (booking_list st') = Suc (length (booking_list st))
             \<and> last (booking_list st') = (booking_at st a)\<lparr>status := ''cancelled''\<rparr>
             \<and> saved st' = booking_list st'"
proof -
  from assms(2) obtain a where
    f: "find_booking st bid (bookings st) = Some a" and
    st': "st' = save_booking
            (st\<lparr>store := (store st)[a := (booking_at st a)\<lparr>status := ''cancelled''\<rparr>]\<rparr>) a"
    by (auto simp: cancel_booking_def split: option.splits)
  from find_booking_Some[OF f] have mem: "a \<in> set (bookings st)"
    and bid: "booking_id (booking_at st a) = bid" by auto
  from mem assms(1) have lt: "a < length (store st)"
    by (auto simp: refs_ok_def list_all_iff)
  have refs: "bookings st' = bookings st @ [a]"
    by (simp add: st' save_booking_def Let_def)
  have at: "booking_at st' a = (booking_at st a)\<lparr>status := ''cancelled''\<rparr>"
    using lt by (simp add: st' save_booking_def Let_def booking_at_def)
  have other: "\<forall>a'. a' \<noteq> a \<longrightarrow> booking_at st' a' = booking_at st a'"
    by (simp add: st' save_booking_def Let_def booking_at_def)
  have cnt: "count_list (bookings st') a = Suc (count_list (bookings st) a)"
    by (simp add: refs)
  have len: "length (booking_list st') = Suc (length (booking_list st))"
    by (simp add: booking_list_def refs)
  have lst: "last (booking_list st') = (booking_at st a)\<lparr>status := ''cancelled''\<rparr>"
    by (simp add: booking_list_def refs at)
  have sv: "saved st' = booking_list st'"
    by (simp add: st' save_booking_def Let_def booking_list_def booking_at_def)
  from mem bid refs at other cnt len lst sv show ?thesis by blast
qed


theorem cancel_appends_alias_witness:
  "refs_ok clinic1
   \<and> fst (cancel_booking clinic1 ''APPT-20300101-A1B2C3'')
   \<and> bookings (snd (cancel_booking clinic1 ''APPT-20300101-A1B2C3'')) = [0, 0]
   \<and> status (booking_at (snd (cancel_booking clinic1 ''APPT-20300101-A1B2C3'')) 0) = ''cancelled''"
proof -
  let ?st' = "snd (cancel_booking clinic1 ''APPT-20300101-A1B2C3'')"
  have r: "refs_ok clinic1"
    by (simp add: refs_ok_def clinic1_def clinic_def)
  have f: "find_booking clinic1 ''APPT-20300101-A1B2C3'' (bookings clinic1) = Some 0"
    by (simp add: clinic1_def clinic_def booking_at_def booking1_def)
  have c: "cancel_booking clinic1 ''APPT-20300101-A1B2C3'' = (True, ?st')"
    by (simp add: cancel_booking_def f)
  from cancel_appends_alias[OF r c] obtain a where
    a: "a \<in> set (bookings clinic1)" "bookings ?st' = bookings clinic1 @ [a]"
       "booking_at ?st' a = (booking_at clinic1 a)\<lparr>status := ''cancelled''\<rparr>"
    by blast
  from a(1) have a0: "a = 0" by (simp add: clinic1_def clinic_def)
  from a(2) a0 have b: "bookings ?st' = [0, 0]" by (simp add: clinic1_def clinic_def)
  from a(3) a0 have s: "status (booking_at ?st' 0) = ''cancelled''" by simp
  from r c b s show ?thesis by (metis fst_conv)
qed

section \<open>Failed bookings\<close>

text \<open>
  C3.  A failed booking is a value and changes nothing.  Whenever \<^verbatim>\<open>book_appointment\<close>
  returns a result with status \<^verbatim>\<open>"failed"\<close>, the state it leaves (records, list and
  file) is the state it was given.  An unparseable date or time never raises: the call
  returns the "Invalid date or time format" failure; and when the date and time parse and
  the slot is found unavailable, it returns the "Time slot is not available" failure.
\<close>

theorem book_failed_is_value_and_pure:
  "(book_appointment st g appt_type date_str start_time_str pat reason_str = Inr (res, st')
      \<and> br_status res = ''failed'' \<longrightarrow> st' = st)
   \<and> (strptime_Ymd date_str = None \<or> strptime_HM start_time_str = None \<longrightarrow>
        book_appointment st g appt_type date_str start_time_str pat reason_str
          = Inr (failed_result ''Invalid date or time format'', st))
   \<and> (strptime_Ymd date_str = Some d \<and> strptime_HM start_time_str = Some t
        \<and> is_slot_available st d t (duration_of appt_type) = Inr False \<longrightarrow>
        book_appointment st g appt_type date_str start_time_str pat reason_str
          = Inr (failed_result ''Time slot is not available'', st))
   \<and> br_status (failed_result msg) = ''failed''"
proof (intro conjI impI)
  assume a: "book_appointment st g appt_type date_str start_time_str pat reason_str = Inr (res, st')
      \<and> br_status res = ''failed''"
  then show "st' = st"
    by (auto simp: book_appointment_def Let_def failed_result_def
             split: option.splits sum.splits exn.splits bool.splits)
next
  assume "strptime_Ymd date_str = None \<or> strptime_HM start_time_str = None"
  then show "book_appointment st g appt_type date_str start_time_str pat reason_str
          = Inr (failed_result ''Invalid date or time format'', st)"
    by (auto simp: book_appointment_def parse_time_def split: option.splits)
next
  assume "strptime_Ymd date_str = Some d \<and> strptime_HM start_time_str = Some t
        \<and> is_slot_available st d t (duration_of appt_type) = Inr False"
  then show "book_appointment st g appt_type date_str start_time_str pat reason_str
          = Inr (failed_result ''Time slot is not available'', st)"
    by (simp add: book_appointment_def parse_time_def Let_def)
next
  show "br_status (failed_result msg) = ''failed''"
    by (simp add: failed_result_def)
qed


lemma parse_monday: "strptime_Ymd ''2030-01-07'' = Some \<lparr>year = 2030, month = 1, day = 7\<rparr>"
  by code_simp

lemma parse_ten: "strptime_HM ''10:00'' = Some \<lparr>hour = 10, minute = 0\<rparr>"
  by code_simp

lemma clinic1_ten_taken:
  "is_slot_available clinic1 \<lparr>year = 2030, month = 1, day = 7\<rparr> \<lparr>hour = 10, minute = 0\<rparr>
     (duration_of ''consultation'') = Inr False"
  by code_simp

theorem book_failed_is_value_and_pure_witness:
  "book_appointment clinic1 gen2 ''consultation'' ''2030-01-07'' ''10:00'' test_patient ''Checkup''
     = Inr (failed_result ''Time slot is not available'', clinic1)
   \<and> book_appointment clinic1 gen2 ''consultation'' ''next monday'' ''10:00'' test_patient ''Checkup''
     = Inr (failed_result ''Invalid date or time format'', clinic1)
   \<and> br_status (failed_result ''Time slot is not available'') = ''failed''"
proof -
  have n: "strptime_Ymd ''next monday'' = None" by code_simp
  note t1 = book_failed_is_value_and_pure
    [of clinic1 gen2 "''consultation''" "''2030-01-07''" "''10:00''" test_patient "''Checkup''"
        "failed_result ''Time slot is not available''" clinic1
        "\<lparr>year = 2030, month = 1, day = 7\<rparr>" "\<lparr>hour = 10, minute = 0\<rparr>"
        "''Time slot is not available''"]
  note t2 = book_failed_is_value_and_pure
    [of clinic1 gen2 "''consultation''" "''next monday''" "''10:00''" test_patient "''Checkup''"
        "failed_result ''Invalid date or time format''" clinic1
        "\<lparr>year = 2030, month = 1, day = 7\<rparr>" "\<lparr>hour = 10, minute = 0\<rparr>"
        "''Invalid date or time format''"]
  from t1 parse_monday parse_ten clinic1_ten_taken
  have a: "book_appointment clinic1 gen2 ''consultation'' ''2030-01-07'' ''10:00'' test_patient ''Checkup''
     = Inr (failed_result ''Time slot is not available'', clinic1)"
    and c: "br_status (failed_result ''Time slot is not available'') = ''failed''"
    by blast+
  from t2 n
  have b: "book_appointment clinic1 gen2 ''consultation'' ''next monday'' ''10:00'' test_patient ''Checkup''
     = Inr (failed_result ''Invalid date or time format'', clinic1)"
    by blast
  from a b c show ?thesis by blast
qed


section \<open>Reading back what was written\<close>

lemma digit_cases:
  "0 \<le> (k::int) \<Longrightarrow> k \<le> 9 \<Longrightarrow>
   k = 0 \<or> k = 1 \<or> k = 2 \<or> k = 3 \<or> k = 4 \<or> k = 5 \<or> k = 6 \<or> k = 7 \<or> k = 8 \<or> k = 9"
  by arith

lemma digit_of_digit_char: "0 \<le> k \<Longrightarrow> k \<le> 9 \<Longrightarrow> digit_of (digit_char k) = Some k"
  using digit_cases[of k] by (auto simp: digit_of_def digit_char_def)

lemma digit_char_not_sep:
  "0 \<le> k \<Longrightarrow> k \<le> 9 \<Longrightarrow>
   digit_char k \<noteq> CHR '':'' \<and> digit_char k \<noteq> CHR ''-'' \<and> digit_char k \<noteq> CHR '' ''"
  using digit_cases[of k] by (auto simp: digit_char_def)

lemma digit_of_range: "digit_of c = Some x \<Longrightarrow> 0 \<le> x \<and> x \<le> 9"
  by (auto simp: digit_of_def Let_def split: if_splits)

lemma minute_field_range:
  "minute_field h s = Some t \<Longrightarrow> hour t = h \<and> 0 \<le> minute t \<and> minute t \<le> 59"
  by (auto simp: minute_field_def split: list.splits option.splits if_splits dest!: digit_of_range)

lemma strptime_HM_range:
  "strptime_HM s = Some t \<Longrightarrow> 0 \<le> hour t \<and> hour t \<le> 23 \<and> 0 \<le> minute t \<and> minute t \<le> 59"
  by (auto simp: strptime_HM_def split: list.splits option.splits if_splits
           dest!: minute_field_range digit_of_range)

lemma strptime_strftime_HM:
  assumes "0 \<le> hour t" "hour t \<le> 23" "0 \<le> minute t" "minute t \<le> 59"
  shows "strptime_HM (strftime_HM t) = Some t"
proof -
  have h1: "0 \<le> hour t div 10 mod 10 \<and> hour t div 10 mod 10 \<le> 9" by simp
  have h2: "0 \<le> hour t mod 10 \<and> hour t mod 10 \<le> 9" by simp
  have m1: "0 \<le> minute t div 10 mod 10 \<and> minute t div 10 mod 10 \<le> 9" by simp
  have m2: "0 \<le> minute t mod 10 \<and> minute t mod 10 \<le> 9" by simp
  have hh: "10 * (hour t div 10 mod 10) + hour t mod 10 = hour t" using assms by simp
  have mm: "10 * (minute t div 10 mod 10) + minute t mod 10 = minute t" using assms by simp
  have m5: "minute t div 10 mod 10 \<le> 5" using assms by simp
  have mf: "minute_field (hour t) (pad2 (minute t)) = Some t"
    using m1 m2 m5 mm by (simp add: minute_field_def pad2_def digit_of_digit_char)
  show ?thesis
    using h1 h2 hh assms mf digit_char_not_sep[of "hour t mod 10"]
    by (simp add: strptime_HM_def strftime_HM_def pad2_def digit_of_digit_char)
qed

lemma minutes_to_time_Inr:
  "minutes_to_time m = Inr t \<Longrightarrow>
     time_to_minutes t = m
     \<and> 0 \<le> hour t \<and> hour t \<le> 23 \<and> 0 \<le> minute t \<and> minute t \<le> 59"
  by (auto simp: minutes_to_time_def time_to_minutes_def Let_def split: if_splits)

lemma minutes_to_time_rec:
  "minutes_to_time m = Inr t \<Longrightarrow> t = \<lparr>hour = m div 60, minute = m mod 60\<rparr>"
  by (auto simp: minutes_to_time_def Let_def split: if_splits)

lemma minutes_to_time_ok:
  "0 \<le> m \<Longrightarrow> m < 1440 \<Longrightarrow> minutes_to_time m = Inr \<lparr>hour = m div 60, minute = m mod 60\<rparr>"
  by (auto simp: minutes_to_time_def Let_def)

lemma time_to_minutes_range:
  "strptime_HM s = Some t \<Longrightarrow> 0 \<le> time_to_minutes t \<and> time_to_minutes t \<le> 1439"
  by (drule strptime_HM_range) (simp add: time_to_minutes_def)

lemma minutes_to_time_roundtrip:
  assumes "minutes_to_time m = Inr t"
  shows "strptime_HM (strftime_HM t) = Some t"
proof -
  from minutes_to_time_Inr[OF assms]
  have "0 \<le> hour t" "hour t \<le> 23" "0 \<le> minute t" "minute t \<le> 59" by auto
  then show ?thesis by (rule strptime_strftime_HM)
qed

text \<open>What a confirmed result of \<^verbatim>\<open>book_appointment\<close> says about the call.\<close>

lemma book_confirmed:
  assumes "book_appointment st g appt_type date_str start_time_str pat reason_str = Inr (res, st')"
    and "br_status res = ''confirmed''"
  shows "\<exists>d t te.
     strptime_Ymd date_str = Some d \<and> strptime_HM start_time_str = Some t
     \<and> is_slot_available st d t (duration_of appt_type) = Inr True
     \<and> minutes_to_time (time_to_minutes t + duration_of appt_type) = Inr te
     \<and> st' = save_booking
         (st\<lparr>store := store st @
            [\<lparr>booking_id = gen_booking_id g, date = date_str, start_time = start_time_str,
              end_time = strftime_HM te, appointment_type = appt_type,
              patient_name = name pat, patient_email = email pat, patient_phone = phone pat,
              reason = reason_str, status = ''confirmed'',
              confirmation_code = gen_confirmation_code g,
              created_at = gen_created_at g\<rparr>]\<rparr>) (length (store st))
     \<and> res = \<lparr>br_booking_id = Some (gen_booking_id g), br_status = ''confirmed'',
              br_confirmation_code = Some (gen_confirmation_code g),
              br_details = BookingDetails
                \<lparr>cd_date = date_str, cd_start_time = start_time_str,
                 cd_end_time = strftime_HM te, cd_appointment_type = appt_type,
                 cd_duration = duration_of appt_type, cd_patient = pat,
                 cd_reason = reason_str\<rparr>\<rparr>"
  using assms
  by (auto simp: book_appointment_def Let_def failed_result_def parse_time_def
           split: option.splits sum.splits exn.splits bool.splits)

lemma find_booking_append_fresh:
  "\<forall>a\<in>set refs. booking_id (booking_at st a) \<noteq> bid \<Longrightarrow> booking_id (booking_at st n) = bid \<Longrightarrow>
   find_booking st bid (refs @ [n]) = Some n"
  by (induction refs) auto

text \<open>
  C8, as the code has it.  Round trip.  When \<^verbatim>\<open>book_appointment\<close> returns a
  confirmed result, and the id it generated is not the id of a record already in the
  list, \<^verbatim>\<open>get_booking\<close> with that id on the new state returns a record whose status is
  \<^verbatim>\<open>"confirmed"\<close> and whose date, start time, end time and patient fields are those of
  the confirmation (which echo the arguments of the call).
\<close>

theorem book_then_get_booking:
  assumes ok: "refs_ok st"
    and book: "book_appointment st g appt_type date_str start_time_str pat reason_str = Inr (res, st')"
    and conf: "br_status res = ''confirmed''"
    and fresh: "gen_booking_id g \<notin> booking_id ` set (booking_list st)"
  shows "\<exists>bid b dt.
     br_booking_id res = Some bid \<and> br_details res = BookingDetails dt
     \<and> get_booking st' bid = Some b
     \<and> booking_id b = bid \<and> status b = ''confirmed''
     \<and> date b = cd_date dt \<and> start_time b = cd_start_time dt \<and> end_time b = cd_end_time dt
     \<and> patient_name b = name (cd_patient dt) \<and> patient_email b = email (cd_patient dt)
     \<and> patient_phone b = phone (cd_patient dt)
     \<and> cd_date dt = date_str \<and> cd_start_time dt = start_time_str \<and> cd_patient dt = pat"
proof -
  from book_confirmed[OF book conf] obtain te where
    st': "st' = save_booking
         (st\<lparr>store := store st @
            [\<lparr>booking_id = gen_booking_id g, date = date_str, start_time = start_time_str,
              end_time = strftime_HM te, appointment_type = appt_type,
              patient_name = name pat, patient_email = email pat, patient_phone = phone pat,
              reason = reason_str, status = ''confirmed'',
              confirmation_code = gen_confirmation_code g,
              created_at = gen_created_at g\<rparr>]\<rparr>) (length (store st))"
    and res: "res = \<lparr>br_booking_id = Some (gen_booking_id g), br_status = ''confirmed'',
              br_confirmation_code = Some (gen_confirmation_code g),
              br_details = BookingDetails
                \<lparr>cd_date = date_str, cd_start_time = start_time_str,
                 cd_end_time = strftime_HM te, cd_appointment_type = appt_type,
                 cd_duration = duration_of appt_type, cd_patient = pat,
                 cd_reason = reason_str\<rparr>\<rparr>"
    by blast
  let ?n = "length (store st)"
  have refs: "bookings st' = bookings st @ [?n]"
    by (simp add: st' save_booking_def Let_def)
  have new: "booking_at st' ?n =
            \<lparr>booking_id = gen_booking_id g, date = date_str, start_time = start_time_str,
              end_time = strftime_HM te, appointment_type = appt_type,
              patient_name = name pat, patient_email = email pat, patient_phone = phone pat,
              reason = reason_str, status = ''confirmed'',
              confirmation_code = gen_confirmation_code g,
              created_at = gen_created_at g\<rparr>"
    by (simp add: st' save_booking_def Let_def booking_at_def)
  have old: "\<forall>a\<in>set (bookings st). booking_at st' a = booking_at st a"
    using ok by (auto simp: st' save_booking_def Let_def booking_at_def refs_ok_def
                            list_all_iff nth_append)
  have "\<forall>a\<in>set (bookings st). booking_id (booking_at st' a) \<noteq> gen_booking_id g"
  proof
    fix a assume a: "a \<in> set (bookings st)"
    then have "booking_at st a \<in> set (booking_list st)" by (simp add: booking_list_def)
    with fresh have "booking_id (booking_at st a) \<noteq> gen_booking_id g" by force
    with old a show "booking_id (booking_at st' a) \<noteq> gen_booking_id g" by simp
  qed
  then have "find_booking st' (gen_booking_id g) (bookings st @ [?n]) = Some ?n"
    by (rule find_booking_append_fresh) (simp add: new)
  then have "get_booking st' (gen_booking_id g) = Some (booking_at st' ?n)"
    by (simp add: get_booking_def refs)
  then show ?thesis
    by (simp add: res new)
qed


lemma clinic_books_ten:
  "book_appointment clinic gen1 ''consultation'' ''2030-01-07'' ''10:00'' test_patient ''Checkup''
     = Inr (confirmation1, clinic1)"
  by code_simp

lemma clinic1_books_eleven:
  "book_appointment clinic1 gen2 ''followup'' ''2030-01-07'' ''11:00'' other_patient ''Review''
     = Inr (confirmation2, clinic2)"
  by code_simp

theorem book_then_get_booking_witness:
  "refs_ok clinic1 \<and> booking_list clinic1 = [booking1]
   \<and> book_appointment clinic1 gen2 ''followup'' ''2030-01-07'' ''11:00'' other_patient ''Review''
       = Inr (confirmation2, clinic2)
   \<and> br_status confirmation2 = ''confirmed''
   \<and> gen_booking_id gen2 \<notin> booking_id ` set (booking_list clinic1)
   \<and> (\<exists>b. get_booking clinic2 ''APPT-20300101-D4E5F6'' = Some b \<and> status b = ''confirmed''
          \<and> date b = ''2030-01-07'' \<and> start_time b = ''11:00'' \<and> end_time b = ''11:15''
          \<and> patient_name b = ''Someone Else'' \<and> patient_email b = ''else@example.com''
          \<and> patient_phone b = ''+1-555-0100'')"
proof -
  have r: "refs_ok clinic1" by code_simp
  have l: "booking_list clinic1 = [booking1]" by code_simp
  have c: "br_status confirmation2 = ''confirmed''" by (simp add: confirmation2_def)
  have f: "gen_booking_id gen2 \<notin> booking_id ` set (booking_list clinic1)"
    unfolding l by (simp add: gen2_def booking1_def)
  from book_then_get_booking[OF r clinic1_books_eleven c f] obtain bid b dt where
    *: "br_booking_id confirmation2 = Some bid" "br_details confirmation2 = BookingDetails dt"
       "get_booking clinic2 bid = Some b" "status b = ''confirmed''"
       "date b = cd_date dt" "start_time b = cd_start_time dt" "end_time b = cd_end_time dt"
       "patient_name b = name (cd_patient dt)" "patient_email b = email (cd_patient dt)"
       "patient_phone b = phone (cd_patient dt)"
    by blast
  from *(1) have bid: "bid = ''APPT-20300101-D4E5F6''" by (simp add: confirmation2_def)
  from *(2) have dt: "dt = \<lparr>cd_date = ''2030-01-07'', cd_start_time = ''11:00'', cd_end_time = ''11:15'',
         cd_appointment_type = ''followup'', cd_duration = 15,
         cd_patient = other_patient, cd_reason = ''Review''\<rparr>" by (simp add: confirmation2_def)
  from *(3-10) have "get_booking clinic2 ''APPT-20300101-D4E5F6'' = Some b \<and> status b = ''confirmed''
          \<and> date b = ''2030-01-07'' \<and> start_time b = ''11:00'' \<and> end_time b = ''11:15''
          \<and> patient_name b = ''Someone Else'' \<and> patient_email b = ''else@example.com''
          \<and> patient_phone b = ''+1-555-0100''"
    unfolding bid dt by (simp add: other_patient_def)
  with r l clinic1_books_eleven c f show ?thesis by blast
qed

text \<open>
  C8, as the claim states it, fails.  Nothing checks that the generated id is new.  The
  second patient books a follow-up in the empty clinic and cancels it; the first patient
  then books a consultation and the generator draws the same six characters again.  The
  booking is confirmed under that id, and \<^verbatim>\<open>get_booking\<close> with the id returns the
  first record of the list that carries it: the cancelled follow-up of the second
  patient, whose status, date, times and patient are not those of the confirmation.
\<close>

theorem round_trip_id_collision_counterexample:
  "book_appointment clinic gen1_earlier ''followup'' ''2030-01-08'' ''09:00'' other_patient ''Review''
     = Inr (confirmation_other, clinic_other)
   \<and> cancel_booking clinic_other ''APPT-20300101-A1B2C3'' = (True, clinic_other_cancelled)
   \<and> book_appointment clinic_other_cancelled gen1 ''consultation'' ''2030-01-07'' ''10:00''
        test_patient ''Checkup''
     = Inr (confirmation1, clinic_collision)
   \<and> br_status confirmation1 = ''confirmed''
   \<and> br_booking_id confirmation1 = Some ''APPT-20300101-A1B2C3''
   \<and> br_details confirmation1 = BookingDetails
        \<lparr>cd_date = ''2030-01-07'', cd_start_time = ''10:00'', cd_end_time = ''10:30'',
         cd_appointment_type = ''consultation'', cd_duration = 30,
         cd_patient = test_patient, cd_reason = ''Checkup''\<rparr>
   \<and> name test_patient = ''Test Patient''
   \<and> get_booking clinic_collision ''APPT-20300101-A1B2C3'' = Some booking_other_cancelled
   \<and> status booking_other_cancelled = ''cancelled''
   \<and> date booking_other_cancelled = ''2030-01-08''
   \<and> start_time booking_other_cancelled = ''09:00''
   \<and> end_time booking_other_cancelled = ''09:15''
   \<and> patient_name booking_other_cancelled = ''Someone Else''"
  by code_simp



section \<open>The slot grid\<close>

lemma candidate_starts_rec:
  assumes "0 < step" "ws + dur \<le> we"
  shows "candidate_starts ws we dur step = ws # candidate_starts (ws + step) we dur step"
proof -
  let ?x = "we - dur - ws"
  let ?q = "?x div step"
  have x0: "0 \<le> ?x" using assms by simp
  have q0: "0 \<le> ?q" using x0 assms(1) by (simp add: pos_imp_zdiv_nonneg_iff)
  have lhs: "candidate_starts ws we dur step = map (\<lambda>k. ws + int k * step) [0..<Suc (nat ?q)]"
    using assms q0 by (simp add: candidate_starts_def nat_add_distrib del: upt_Suc)
  have up: "[0..<Suc (nat ?q)] = 0 # map Suc [0..<nat ?q]"
    by (simp add: upt_conv_Cons map_Suc_upt del: upt_Suc)
  have rhs: "candidate_starts (ws + step) we dur step = map (\<lambda>k. ws + step + int k * step) [0..<nat ?q]"
  proof (cases "ws + step + dur \<le> we")
    case True
    have e1: "(we - dur - (ws + step)) div step = (?x - step) div step"
      by (rule arg_cong[of _ _ "\<lambda>z. z div step"]) simp
    have "(?x - step) div step + 1 = ((?x - step) + step) div step"
      using assms(1) by (simp only: div_add_self2)
    also have "\<dots> = ?q" by simp
    finally have "(?x - step) div step + 1 = ?q" .
    with e1 have "(we - dur - (ws + step)) div step + 1 = ?q" by simp
    with True show ?thesis by (simp add: candidate_starts_def)
  next
    case False
    then have "?x < step" by simp
    with x0 have "?q = 0" by (simp add: div_pos_pos_trivial)
    with False show ?thesis by (simp add: candidate_starts_def)
  qed
  show ?thesis
    unfolding lhs up rhs by (simp add: algebra_simps comp_def del: upt_Suc)
qed

lemma slot_loop_partial:
  assumes "slot_loop st d dur step e cur acc = Some y"
  shows "\<forall>r. y = Inr r \<longrightarrow> (cur + dur \<le> e \<longrightarrow> 0 < step)
        \<and> r = acc @ map (slot_at st d dur) (candidate_starts cur e dur step)"
proof (rule slot_loop.raw_induct[where P = "\<lambda>st d dur step e cur acc y. \<forall>r. y = Inr r \<longrightarrow>
        (cur + dur \<le> e \<longrightarrow> 0 < step)
        \<and> r = acc @ map (slot_at st d dur) (candidate_starts cur e dur step)", OF _ assms], goal_cases)
  case (1 f st d dur step e cur acc y)
  show ?case
  proof (cases "cur + dur \<le> e")
    case False
    then have c: "candidate_starts cur e dur step = []" by (simp add: candidate_starts_def)
    from 1(2) False have "y = Inr acc" by simp
    with c False show ?thesis by simp
  next
    case True
    show ?thesis
    proof (intro allI impI)
      fix r assume y: "y = Inr r"
      from 1(2) True y obtain t1 t2 av where
        t1: "minutes_to_time cur = Inr t1" and t2: "minutes_to_time (cur + dur) = Inr t2"
        and av: "is_slot_available st d t1 dur = Inr av"
        and rec: "f st d dur step e (cur + step)
                    (acc @ [\<lparr>slot_start_time = strftime_HM t1, slot_end_time = strftime_HM t2,
                              available = av\<rparr>]) = Some (Inr r)"
        by (auto split: sum.splits)
      from 1(1)[OF rec] have ih1: "cur + step + dur \<le> e \<longrightarrow> 0 < step"
        and ih2: "r = (acc @ [\<lparr>slot_start_time = strftime_HM t1, slot_end_time = strftime_HM t2,
                              available = av\<rparr>]) @ map (slot_at st d dur) (candidate_starts (cur + step) e dur step)"
        by auto
      have pos: "0 < step"
      proof (rule ccontr)
        assume "\<not> 0 < step"
        then have "cur + step + dur \<le> e" using True by simp
        with ih1 \<open>\<not> 0 < step\<close> show False by simp
      qed
      have sl: "\<lparr>slot_start_time = strftime_HM t1, slot_end_time = strftime_HM t2, available = av\<rparr>
                = slot_at st d dur cur"
        using minutes_to_time_rec[OF t1] minutes_to_time_rec[OF t2] av
        by (auto simp: slot_at_def)
      show "(cur + dur \<le> e \<longrightarrow> 0 < step) \<and> r = acc @ map (slot_at st d dur) (candidate_starts cur e dur step)"
        using pos ih2 sl candidate_starts_rec[OF pos True] by simp
    qed
  qed
qed

lemma candidate_starts_bounds:
  assumes "0 < step" "m \<in> set (candidate_starts ws we dur step)"
  shows "ws \<le> m \<and> m + dur \<le> we"
proof -
  from assms(2) have le: "ws + dur \<le> we"
    by (auto simp: candidate_starts_def split: if_splits)
  let ?x = "we - dur - ws"
  from assms(2) le obtain k where k: "k < nat (?x div step + 1)" and m: "m = ws + int k * step"
    by (auto simp: candidate_starts_def)
  from k have "int k \<le> ?x div step" by linarith
  then have "int k * step \<le> (?x div step) * step"
    using assms(1) by (simp add: mult_right_mono)
  moreover have "(?x div step) * step + ?x mod step = ?x"
    by (rule div_mult_mod_eq)
  moreover have "0 \<le> ?x mod step"
    using assms(1) by simp
  ultimately have "int k * step \<le> ?x" by linarith
  moreover have "0 \<le> int k * step" using assms(1) by simp
  ultimately show ?thesis using m by simp
qed

lemma duration_of_pos: "0 < duration_of t"
  by (simp add: duration_of_def appointment_durations_def)

lemma duration_of_le: "duration_of t \<le> 60"
  by (simp add: duration_of_def appointment_durations_def)

text \<open>
  What a returned \<^verbatim>\<open>get_availability\<close> result is: empty in the three degenerate cases,
  and otherwise the slots of the candidate start times, in order.
\<close>

lemma get_availability_returns:
  assumes "get_availability st today date_str appt_type = Some (Inr av)"
  shows "av_date av = date_str \<and>
     (available_slots av = [] \<or>
      (\<exists>d wh ws we step.
          strptime_Ymd date_str = Some d \<and> \<not> date_less d today
        \<and> get_working_hours st d = Some wh
        \<and> strptime_HM (wh_start wh) = Some ws \<and> strptime_HM (wh_end wh) = Some we
        \<and> step = (case slot_duration_minutes (schedule_data st) of None \<Rightarrow> 15 | Some g \<Rightarrow> g)
        \<and> 0 < step
        \<and> available_slots av =
            map (slot_at st d (duration_of appt_type))
              (candidate_starts (time_to_minutes ws) (time_to_minutes we)
                 (duration_of appt_type) step)))"
proof (cases "strptime_Ymd date_str")
  case None
  with assms show ?thesis by (auto simp: get_availability_def)
next
  case (Some d)
  show ?thesis
  proof (cases "date_less d today \<or> get_working_hours st d = None")
    case True
    with assms Some show ?thesis
      by (auto simp: get_availability_def Let_def split: if_splits)
  next
    case False
    then obtain wh where wh: "get_working_hours st d = Some wh" and past: "\<not> date_less d today"
      by auto
    define step where "step = (case slot_duration_minutes (schedule_data st) of None \<Rightarrow> 15 | Some g \<Rightarrow> g)"
    from assms Some wh past obtain ws we where
      ws: "strptime_HM (wh_start wh) = Some ws" and we: "strptime_HM (wh_end wh) = Some we"
      and loop: "slot_loop st d (duration_of appt_type) step (time_to_minutes we)
                   (time_to_minutes ws) [] = Some (Inr (available_slots av))"
      and dt: "av_date av = date_str"
      by (auto simp: get_availability_def Let_def parse_time_def step_def
               split: option.splits sum.splits)
    from slot_loop_partial[OF loop]
    have ent: "time_to_minutes ws + duration_of appt_type \<le> time_to_minutes we \<longrightarrow> 0 < step"
      and sl: "available_slots av = map (slot_at st d (duration_of appt_type))
              (candidate_starts (time_to_minutes ws) (time_to_minutes we)
                 (duration_of appt_type) step)"
      by auto
    show ?thesis
    proof (cases "time_to_minutes ws + duration_of appt_type \<le> time_to_minutes we")
      case True
      with ent have "0 < step" by simp
      with Some past wh ws we sl dt show ?thesis
        unfolding step_def by blast
    next
      case False
      then have "available_slots av = []" using sl by (simp add: candidate_starts_def)
      with dt show ?thesis by simp
    qed
  qed
qed

lemma slot_at_times:
  assumes "0 \<le> m" "m + dur \<le> 1439" "0 \<le> dur"
  shows "\<exists>t te. strptime_HM (slot_start_time (slot_at st d dur m)) = Some t
           \<and> strptime_HM (slot_end_time (slot_at st d dur m)) = Some te
           \<and> time_to_minutes t = m \<and> time_to_minutes te = m + dur"
proof -
  have a: "minutes_to_time m = Inr \<lparr>hour = m div 60, minute = m mod 60\<rparr>"
    using assms by (simp add: minutes_to_time_ok)
  have b: "minutes_to_time (m + dur) = Inr \<lparr>hour = (m + dur) div 60, minute = (m + dur) mod 60\<rparr>"
    using assms by (simp add: minutes_to_time_ok)
  from minutes_to_time_roundtrip[OF a] minutes_to_time_roundtrip[OF b]
       minutes_to_time_Inr[OF a] minutes_to_time_Inr[OF b]
  show ?thesis by (simp add: slot_at_def)
qed

section \<open>Durations\<close>

text \<open>
  C9.  Duration policy.  The duration of a type tag is what
  \<^verbatim>\<open>appointment_durations\<close> gives for it, and 30 for a tag that is not one of its
  keys.  The record that a confirmed \<^verbatim>\<open>book_appointment\<close> appends (the last of the
  list) has start and end times that parse, with end = start + that duration in minutes
  since midnight, and the confirmation reports that duration and end time.  Every slot
  that \<^verbatim>\<open>get_availability\<close> returns has end = start + that duration as well.  So for
  an unknown tag all of these are start + 30, and for \<^verbatim>\<open>"specialist"\<close> start + 60.
\<close>

theorem duration_policy:
  "(appointment_durations appt_type = None \<longrightarrow> duration_of appt_type = 30)
   \<and> (\<forall>d. appointment_durations appt_type = Some d \<longrightarrow> duration_of appt_type = d)
   \<and> (book_appointment st g appt_type date_str start_time_str pat reason_str = Inr (res, st')
        \<and> br_status res = ''confirmed'' \<longrightarrow>
        (\<exists>t te dt.
            strptime_HM (start_time (last (booking_list st'))) = Some t
          \<and> strptime_HM (end_time (last (booking_list st'))) = Some te
          \<and> time_to_minutes te = time_to_minutes t + duration_of appt_type
          \<and> appointment_type (last (booking_list st')) = appt_type
          \<and> start_time (last (booking_list st')) = start_time_str
          \<and> br_details res = BookingDetails dt
          \<and> cd_duration dt = duration_of appt_type
          \<and> cd_end_time dt = end_time (last (booking_list st'))))
   \<and> (get_availability st today date_str appt_type = Some (Inr av) \<longrightarrow>
        (\<forall>s\<in>set (available_slots av). \<exists>t te.
            strptime_HM (slot_start_time s) = Some t
          \<and> strptime_HM (slot_end_time s) = Some te
          \<and> time_to_minutes te = time_to_minutes t + duration_of appt_type))"
proof (intro conjI impI allI)
  assume "appointment_durations appt_type = None"
  then show "duration_of appt_type = 30" by (simp add: duration_of_def)
next
  fix d assume "appointment_durations appt_type = Some d"
  then show "duration_of appt_type = d" by (simp add: duration_of_def)
next
  assume a: "book_appointment st g appt_type date_str start_time_str pat reason_str = Inr (res, st')
        \<and> br_status res = ''confirmed''"
  from book_confirmed[of st g appt_type date_str start_time_str pat reason_str res st'] a
  obtain t te where
    t: "strptime_HM start_time_str = Some t"
    and te: "minutes_to_time (time_to_minutes t + duration_of appt_type) = Inr te"
    and st': "st' = save_booking
         (st\<lparr>store := store st @
            [\<lparr>booking_id = gen_booking_id g, date = date_str, start_time = start_time_str,
              end_time = strftime_HM te, appointment_type = appt_type,
              patient_name = name pat, patient_email = email pat, patient_phone = phone pat,
              reason = reason_str, status = ''confirmed'',
              confirmation_code = gen_confirmation_code g,
              created_at = gen_created_at g\<rparr>]\<rparr>) (length (store st))"
    and res: "res = \<lparr>br_booking_id = Some (gen_booking_id g), br_status = ''confirmed'',
              br_confirmation_code = Some (gen_confirmation_code g),
              br_details = BookingDetails
                \<lparr>cd_date = date_str, cd_start_time = start_time_str,
                 cd_end_time = strftime_HM te, cd_appointment_type = appt_type,
                 cd_duration = duration_of appt_type, cd_patient = pat,
                 cd_reason = reason_str\<rparr>\<rparr>"
    by blast
  have lst: "last (booking_list st') =
            \<lparr>booking_id = gen_booking_id g, date = date_str, start_time = start_time_str,
              end_time = strftime_HM te, appointment_type = appt_type,
              patient_name = name pat, patient_email = email pat, patient_phone = phone pat,
              reason = reason_str, status = ''confirmed'',
              confirmation_code = gen_confirmation_code g,
              created_at = gen_created_at g\<rparr>"
    by (simp add: st' save_booking_def Let_def booking_list_def booking_at_def)
  from minutes_to_time_roundtrip[OF te] minutes_to_time_Inr[OF te] t
  show "\<exists>t te dt.
            strptime_HM (start_time (last (booking_list st'))) = Some t
          \<and> strptime_HM (end_time (last (booking_list st'))) = Some te
          \<and> time_to_minutes te = time_to_minutes t + duration_of appt_type
          \<and> appointment_type (last (booking_list st')) = appt_type
          \<and> start_time (last (booking_list st')) = start_time_str
          \<and> br_details res = BookingDetails dt
          \<and> cd_duration dt = duration_of appt_type
          \<and> cd_end_time dt = end_time (last (booking_list st'))"
    by (simp add: lst res)
next
  assume a: "get_availability st today date_str appt_type = Some (Inr av)"
  show "\<forall>s\<in>set (available_slots av). \<exists>t te.
            strptime_HM (slot_start_time s) = Some t
          \<and> strptime_HM (slot_end_time s) = Some te
          \<and> time_to_minutes te = time_to_minutes t + duration_of appt_type"
  proof
    fix s assume s: "s \<in> set (available_slots av)"
    then have "available_slots av \<noteq> []" by auto
    from get_availability_returns[OF a] \<open>available_slots av \<noteq> []\<close>
    have "\<exists>d wh ws we step.
          strptime_Ymd date_str = Some d \<and> \<not> date_less d today
        \<and> get_working_hours st d = Some wh
        \<and> strptime_HM (wh_start wh) = Some ws \<and> strptime_HM (wh_end wh) = Some we
        \<and> step = (case slot_duration_minutes (schedule_data st) of None \<Rightarrow> 15 | Some g \<Rightarrow> g)
        \<and> 0 < step
        \<and> available_slots av =
            map (slot_at st d (duration_of appt_type))
              (candidate_starts (time_to_minutes ws) (time_to_minutes we)
                 (duration_of appt_type) step)"
      by blast
    then obtain d wh ws we step where
      ws: "strptime_HM (wh_start (wh::hours)) = Some ws" and we: "strptime_HM (wh_end wh) = Some we"
      and pos: "0 < step"
      and sl: "available_slots av =
            map (slot_at st d (duration_of appt_type))
              (candidate_starts (time_to_minutes ws) (time_to_minutes we)
                 (duration_of appt_type) step)"
      by blast
    from s sl obtain m where
      m: "m \<in> set (candidate_starts (time_to_minutes ws) (time_to_minutes we)
                 (duration_of appt_type) step)"
      and sm: "s = slot_at st d (duration_of appt_type) m"
      by auto
    from candidate_starts_bounds[OF pos m] time_to_minutes_range[OF ws] time_to_minutes_range[OF we]
    have "0 \<le> m" "m + duration_of appt_type \<le> 1439" by auto
    from slot_at_times[OF this, of st d] duration_of_pos[of appt_type]
    show "\<exists>t te. strptime_HM (slot_start_time s) = Some t
          \<and> strptime_HM (slot_end_time s) = Some te
          \<and> time_to_minutes te = time_to_minutes t + duration_of appt_type"
      unfolding sm by force
  qed
qed


lemma walk_in_books:
  "\<not> isl (book_appointment small_clinic gen1 ''walk-in'' ''2030-01-07'' ''09:00'' test_patient ''Checkup'')"
  by code_simp

lemma walk_in_grid:
  "get_availability small_clinic new_year_2030 ''2030-01-07'' ''walk-in'' =
     Some (Inr \<lparr>av_date = ''2030-01-07'', available_slots =
       [\<lparr>slot_start_time = ''09:00'', slot_end_time = ''09:30'', available = True\<rparr>,
        \<lparr>slot_start_time = ''09:30'', slot_end_time = ''10:00'', available = True\<rparr>,
        \<lparr>slot_start_time = ''10:00'', slot_end_time = ''10:30'', available = True\<rparr>,
        \<lparr>slot_start_time = ''10:30'', slot_end_time = ''11:00'', available = True\<rparr>,
        \<lparr>slot_start_time = ''11:00'', slot_end_time = ''11:30'', available = True\<rparr>,
        \<lparr>slot_start_time = ''11:30'', slot_end_time = ''12:00'', available = True\<rparr>]\<rparr>)"
  by code_simp

lemma specialist_books:
  "\<not> isl (book_appointment small_clinic gen1 ''specialist'' ''2030-01-07'' ''09:00'' test_patient ''Checkup'')"
  by code_simp

lemma specialist_grid:
  "get_availability small_clinic new_year_2030 ''2030-01-07'' ''specialist'' =
     Some (Inr \<lparr>av_date = ''2030-01-07'', available_slots =
       [\<lparr>slot_start_time = ''09:00'', slot_end_time = ''10:00'', available = True\<rparr>,
        \<lparr>slot_start_time = ''09:30'', slot_end_time = ''10:30'', available = True\<rparr>,
        \<lparr>slot_start_time = ''10:00'', slot_end_time = ''11:00'', available = True\<rparr>,
        \<lparr>slot_start_time = ''10:30'', slot_end_time = ''11:30'', available = True\<rparr>,
        \<lparr>slot_start_time = ''11:00'', slot_end_time = ''12:00'', available = True\<rparr>]\<rparr>)"
  by code_simp

theorem duration_policy_witness:
  "appointment_durations ''walk-in'' = None \<and> duration_of ''walk-in'' = 30
   \<and> appointment_durations ''specialist'' = Some 60 \<and> duration_of ''specialist'' = 60
   \<and> (\<exists>res st' t te.
        book_appointment small_clinic gen1 ''walk-in'' ''2030-01-07'' ''09:00'' test_patient ''Checkup''
          = Inr (res, st')
        \<and> br_status res = ''confirmed''
        \<and> strptime_HM (start_time (last (booking_list st'))) = Some t
        \<and> strptime_HM (end_time (last (booking_list st'))) = Some te
        \<and> time_to_minutes te = time_to_minutes t + 30)
   \<and> (\<exists>res st' t te.
        book_appointment small_clinic gen1 ''specialist'' ''2030-01-07'' ''09:00'' test_patient ''Checkup''
          = Inr (res, st')
        \<and> br_status res = ''confirmed''
        \<and> start_time (last (booking_list st')) = ''09:00''
        \<and> end_time (last (booking_list st')) = ''10:00''
        \<and> strptime_HM (start_time (last (booking_list st'))) = Some t
        \<and> strptime_HM (end_time (last (booking_list st'))) = Some te
        \<and> time_to_minutes te = time_to_minutes t + 60)
   \<and> (\<exists>av. get_availability small_clinic new_year_2030 ''2030-01-07'' ''walk-in'' = Some (Inr av)
        \<and> (\<forall>s\<in>set (available_slots av). \<exists>t te.
            strptime_HM (slot_start_time s) = Some t
          \<and> strptime_HM (slot_end_time s) = Some te
          \<and> time_to_minutes te = time_to_minutes t + 30))
   \<and> (\<exists>av. get_availability small_clinic new_year_2030 ''2030-01-07'' ''specialist'' = Some (Inr av)
        \<and> length (available_slots av) = 5
        \<and> (\<forall>s\<in>set (available_slots av). \<exists>t te.
            strptime_HM (slot_start_time s) = Some t
          \<and> strptime_HM (slot_end_time s) = Some te
          \<and> time_to_minutes te = time_to_minutes t + 60))"
proof -
  let ?X = "book_appointment small_clinic gen1 ''walk-in'' ''2030-01-07'' ''09:00'' test_patient ''Checkup''"
  let ?Y = "book_appointment small_clinic gen1 ''specialist'' ''2030-01-07'' ''09:00'' test_patient ''Checkup''"
  let ?av = "\<lparr>av_date = ''2030-01-07'', available_slots =
       [\<lparr>slot_start_time = ''09:00'', slot_end_time = ''09:30'', available = True\<rparr>,
        \<lparr>slot_start_time = ''09:30'', slot_end_time = ''10:00'', available = True\<rparr>,
        \<lparr>slot_start_time = ''10:00'', slot_end_time = ''10:30'', available = True\<rparr>,
        \<lparr>slot_start_time = ''10:30'', slot_end_time = ''11:00'', available = True\<rparr>,
        \<lparr>slot_start_time = ''11:00'', slot_end_time = ''11:30'', available = True\<rparr>,
        \<lparr>slot_start_time = ''11:30'', slot_end_time = ''12:00'', available = True\<rparr>]\<rparr>"
  let ?aw = "\<lparr>av_date = ''2030-01-07'', available_slots =
       [\<lparr>slot_start_time = ''09:00'', slot_end_time = ''10:00'', available = True\<rparr>,
        \<lparr>slot_start_time = ''09:30'', slot_end_time = ''10:30'', available = True\<rparr>,
        \<lparr>slot_start_time = ''10:00'', slot_end_time = ''11:00'', available = True\<rparr>,
        \<lparr>slot_start_time = ''10:30'', slot_end_time = ''11:30'', available = True\<rparr>,
        \<lparr>slot_start_time = ''11:00'', slot_end_time = ''12:00'', available = True\<rparr>]\<rparr>"
  have none: "appointment_durations ''walk-in'' = None"
    by (simp add: appointment_durations_def)
  have some: "appointment_durations ''specialist'' = Some 60"
    by (simp add: appointment_durations_def)
  have x: "?X = Inr (fst (projr ?X), snd (projr ?X))"
    using walk_in_books by (cases ?X) auto
  have y: "?Y = Inr (fst (projr ?Y), snd (projr ?Y))"
    using specialist_books by (cases ?Y) auto
  have confx: "br_status (fst (projr ?X)) = ''confirmed''"
    by code_simp
  have confy: "br_status (fst (projr ?Y)) = ''confirmed''"
    by code_simp
  have sy: "start_time (last (booking_list (snd (projr ?Y)))) = ''09:00''"
    by code_simp
  have ey: "end_time (last (booking_list (snd (projr ?Y)))) = ''10:00''"
    by code_simp
  note t = duration_policy[of "''walk-in''" small_clinic gen1 "''2030-01-07''" "''09:00''"
      test_patient "''Checkup''" "fst (projr ?X)" "snd (projr ?X)" new_year_2030 ?av]
  note u = duration_policy[of "''specialist''" small_clinic gen1 "''2030-01-07''" "''09:00''"
      test_patient "''Checkup''" "fst (projr ?Y)" "snd (projr ?Y)" new_year_2030 ?aw]
  from t none have d30: "duration_of ''walk-in'' = 30" by blast
  from u some have d60: "duration_of ''specialist'' = 60" by blast
  from t x confx obtain t1 te1 where
    "strptime_HM (start_time (last (booking_list (snd (projr ?X))))) = Some t1"
    "strptime_HM (end_time (last (booking_list (snd (projr ?X))))) = Some te1"
    "time_to_minutes te1 = time_to_minutes t1 + duration_of ''walk-in''"
    by blast
  with x confx d30 have b: "\<exists>res st' t te. ?X = Inr (res, st')
        \<and> br_status res = ''confirmed''
        \<and> strptime_HM (start_time (last (booking_list st'))) = Some t
        \<and> strptime_HM (end_time (last (booking_list st'))) = Some te
        \<and> time_to_minutes te = time_to_minutes t + 30"
    by metis
  from u y confy obtain t2 te2 where
    "strptime_HM (start_time (last (booking_list (snd (projr ?Y))))) = Some t2"
    "strptime_HM (end_time (last (booking_list (snd (projr ?Y))))) = Some te2"
    "time_to_minutes te2 = time_to_minutes t2 + duration_of ''specialist''"
    by blast
  with y confy d60 sy ey have c: "\<exists>res st' t te. ?Y = Inr (res, st')
        \<and> br_status res = ''confirmed''
        \<and> start_time (last (booking_list st')) = ''09:00''
        \<and> end_time (last (booking_list st')) = ''10:00''
        \<and> strptime_HM (start_time (last (booking_list st'))) = Some t
        \<and> strptime_HM (end_time (last (booking_list st'))) = Some te
        \<and> time_to_minutes te = time_to_minutes t + 60"
    by metis
  from t walk_in_grid d30 have g: "\<forall>s\<in>set (available_slots ?av). \<exists>t te.
            strptime_HM (slot_start_time s) = Some t
          \<and> strptime_HM (slot_end_time s) = Some te
          \<and> time_to_minutes te = time_to_minutes t + 30"
    by metis
  from u specialist_grid d60 have h: "\<forall>s\<in>set (available_slots ?aw). \<exists>t te.
            strptime_HM (slot_start_time s) = Some t
          \<and> strptime_HM (slot_end_time s) = Some te
          \<and> time_to_minutes te = time_to_minutes t + 60"
    by metis
  have l: "length (available_slots ?aw) = 5" by simp
  from g walk_in_grid have g': "\<exists>av. get_availability small_clinic new_year_2030 ''2030-01-07'' ''walk-in'' = Some (Inr av)
        \<and> (\<forall>s\<in>set (available_slots av). \<exists>t te.
            strptime_HM (slot_start_time s) = Some t
          \<and> strptime_HM (slot_end_time s) = Some te
          \<and> time_to_minutes te = time_to_minutes t + 30)" by blast
  from h l specialist_grid have h': "\<exists>av. get_availability small_clinic new_year_2030 ''2030-01-07'' ''specialist'' = Some (Inr av)
        \<and> length (available_slots av) = 5
        \<and> (\<forall>s\<in>set (available_slots av). \<exists>t te.
            strptime_HM (slot_start_time s) = Some t
          \<and> strptime_HM (slot_end_time s) = Some te
          \<and> time_to_minutes te = time_to_minutes t + 60)" by blast
  from none d30 some d60 b c g' h' show ?thesis by (intro conjI)
qed

section \<open>Date strings that are not zero-padded\<close>

text \<open>
  \<^verbatim>\<open>strptime\<close> accepts \<^verbatim>\<open>"2030-1-7"\<close> for Monday 2030-01-07.
  \<^verbatim>\<open>book_appointment\<close> stores the string as given, while \<^verbatim>\<open>_is_slot_available\<close>
  compares stored dates with the zero-padded \<^verbatim>\<open>strftime\<close> form, so the stored booking
  is never seen again.
\<close>

text \<open>
  C1 (the code at the failing input).  In the empty clinic, booking a consultation on
  \<^verbatim>\<open>"2030-1-7"\<close> at 10:00 is confirmed, and the identical second call on the resulting
  state is confirmed as well: the list then holds two confirmed bookings with the same
  date and the same interval 10:00 to 10:30.
\<close>

theorem double_booking_unpadded_date:
  "book_appointment clinic gen1 ''consultation'' ''2030-1-7'' ''10:00'' test_patient ''Checkup''
     = Inr (confirmation1_unpadded, clinic1_unpadded)
   \<and> book_appointment clinic1_unpadded gen2 ''consultation'' ''2030-1-7'' ''10:00''
       test_patient ''Checkup''
     = Inr (confirmation2_unpadded, clinic2_unpadded)
   \<and> br_status confirmation1_unpadded = ''confirmed''
   \<and> br_status confirmation2_unpadded = ''confirmed''
   \<and> map status (booking_list clinic2_unpadded) = [''confirmed'', ''confirmed'']
   \<and> map date (booking_list clinic2_unpadded) = [''2030-1-7'', ''2030-1-7'']
   \<and> map start_time (booking_list clinic2_unpadded) = [''10:00'', ''10:00'']
   \<and> map end_time (booking_list clinic2_unpadded) = [''10:30'', ''10:30'']"
  by code_simp

text \<open>
  C2 (the code at the failing input).  With that one confirmed booking for
  \<^verbatim>\<open>"2030-1-7"\<close> from 10:00 to 10:30 in the list, \<^verbatim>\<open>get_availability\<close> for the same
  date string still reports the 10:00 to 10:30 slot as available.
\<close>

theorem available_slot_overlaps_booking:
  "booking_list clinic1_unpadded = [booking1_unpadded]
   \<and> date booking1_unpadded = ''2030-1-7'' \<and> status booking1_unpadded = ''confirmed''
   \<and> start_time booking1_unpadded = ''10:00'' \<and> end_time booking1_unpadded = ''10:30''
   \<and> get_availability clinic1_unpadded new_year_2030 ''2030-1-7'' ''consultation''
       = Some (Inr \<lparr>av_date = ''2030-1-7'',
                    available_slots =
                      map (slot_at clinic1_unpadded \<lparr>year = 2030, month = 1, day = 7\<rparr> 30)
                        (candidate_starts 540 1020 30 15)\<rparr>)
   \<and> 600 \<in> set (candidate_starts 540 1020 30 15)
   \<and> slot_at clinic1_unpadded \<lparr>year = 2030, month = 1, day = 7\<rparr> 30 600
       = \<lparr>slot_start_time = ''10:00'', slot_end_time = ''10:30'', available = True\<rparr>"
  by code_simp

section \<open>Time preferences\<close>

text \<open>
  C5 (the code at the failing input).  The preference \<^verbatim>\<open>"any"\<close>, which the agent's tool
  schema offers next to morning, afternoon and evening, is a non-empty string that matches
  none of the three branches of the filter loop: every slot is dropped.  Without a
  preference the same query returns 26 available slots.
\<close>

theorem preference_any_drops_all:
  "get_available_slots_only clinic new_year_2030 ''2030-01-07'' ''consultation'' (Some ''any'')
     = Some (Inr [])
   \<and> get_available_slots_only clinic new_year_2030 ''2030-01-07'' ''consultation'' None
     = Some (Inr (filter available
         (map (slot_at clinic \<lparr>year = 2030, month = 1, day = 7\<rparr> 30)
            (candidate_starts 540 1020 30 15))))
   \<and> length (filter available
         (map (slot_at clinic \<lparr>year = 2030, month = 1, day = 7\<rparr> 30)
            (candidate_starts 540 1020 30 15))) = 26"
  by code_simp

section \<open>The grid of \<^verbatim>\<open>get_availability\<close>\<close>

lemma check_existing_total:
  "list_all (\<lambda>b. status b \<noteq> ''confirmed''
                 \<or> (strptime_HM (start_time b) \<noteq> None \<and> strptime_HM (end_time b) \<noteq> None)) bs
   \<Longrightarrow> \<exists>v. check_existing ds s e bs = Inr v"
  by (induction bs) (auto simp: parse_time_def split: option.splits)

lemma is_slot_available_total:
  assumes "times_ok st"
    and "get_working_hours st d = Some wh"
    and "strptime_HM (wh_start wh) = Some ws" and "strptime_HM (wh_end wh) = Some we"
  shows "\<exists>v. is_slot_available st d t dur = Inr v"
proof -
  from assms(1) obtain ls le where
    l: "strptime_HM (wh_start (get_lunch_break st)) = Some ls"
       "strptime_HM (wh_end (get_lunch_break st)) = Some le"
    and bs: "list_all (\<lambda>b. status b \<noteq> ''confirmed''
                 \<or> (strptime_HM (start_time b) \<noteq> None \<and> strptime_HM (end_time b) \<noteq> None))
               (booking_list st)"
    by (auto simp: times_ok_def)
  from check_existing_total[OF bs] obtain v where
    "check_existing (strftime_Ymd d) (time_to_minutes t) (time_to_minutes t + dur) (booking_list st)
       = Inr v" by blast
  with assms(2-4) l show ?thesis
    by (auto simp: is_slot_available_def is_working_day_def get_working_hours_def
                   parse_time_def Let_def)
qed

lemma slot_loop_total:
  assumes "0 < step" "e \<le> 1439" "0 \<le> dur"
    and "\<And>t. \<exists>v. is_slot_available st d t dur = Inr v"
  shows "0 \<le> cur \<Longrightarrow> \<exists>r. slot_loop st d dur step e cur acc = Some (Inr r)"
proof (induction "nat (e - dur - cur + 1)" arbitrary: cur acc rule: less_induct)
  case less
  show ?case
  proof (cases "cur + dur \<le> e")
    case False
    then show ?thesis by (subst slot_loop.simps) simp
  next
    case True
    have t1: "minutes_to_time cur = Inr \<lparr>hour = cur div 60, minute = cur mod 60\<rparr>"
      using True less.prems assms(2,3) by (intro minutes_to_time_ok) auto
    have t2: "minutes_to_time (cur + dur) =
                Inr \<lparr>hour = (cur + dur) div 60, minute = (cur + dur) mod 60\<rparr>"
      using True less.prems assms(2,3) by (intro minutes_to_time_ok) auto
    from assms(4) obtain v where
      v: "is_slot_available st d \<lparr>hour = cur div 60, minute = cur mod 60\<rparr> dur = Inr v" by blast
    have "nat (e - dur - (cur + step) + 1) < nat (e - dur - cur + 1)"
      using True assms(1) by simp
    moreover have "0 \<le> cur + step" using less.prems assms(1) by simp
    ultimately obtain r where
      "slot_loop st d dur step e (cur + step)
         (acc @ [\<lparr>slot_start_time = strftime_HM \<lparr>hour = cur div 60, minute = cur mod 60\<rparr>,
                  slot_end_time = strftime_HM \<lparr>hour = (cur + dur) div 60, minute = (cur + dur) mod 60\<rparr>,
                  available = v\<rparr>]) = Some (Inr r)"
      using less.hyps by blast
    then show ?thesis
      using True t1 t2 v by (subst slot_loop.simps) simp
  qed
qed

text \<open>
  C4.  \<^verbatim>\<open>get_availability\<close> returns the empty slot list for a date string that does
  not parse, for a date before today, and for a date whose weekday has no working hours.
  For every other date, given a schedule whose working hours for that weekday parse, a
  positive slot granularity, and a lunch break and confirmed bookings whose times parse,
  it returns the whole grid: one slot for each start time from the working-hours start,
  in steps of the granularity, as long as start + duration is at most the working-hours
  end, each with its availability flag, the unavailable ones included.
\<close>

theorem get_availability_grid:
  "(strptime_Ymd date_str = None
      \<or> (\<exists>d. strptime_Ymd date_str = Some d \<and> (date_less d today \<or> get_working_hours st d = None))
    \<longrightarrow> get_availability st today date_str appt_type
          = Some (Inr \<lparr>av_date = date_str, available_slots = []\<rparr>))
   \<and> (strptime_Ymd date_str = Some d \<and> \<not> date_less d today
      \<and> get_working_hours st d = Some wh
      \<and> strptime_HM (wh_start wh) = Some ws \<and> strptime_HM (wh_end wh) = Some we
      \<and> 0 < granularity st \<and> times_ok st
    \<longrightarrow> get_availability st today date_str appt_type
          = Some (Inr \<lparr>av_date = date_str,
                       available_slots =
                         map (slot_at st d (duration_of appt_type))
                           (candidate_starts (time_to_minutes ws) (time_to_minutes we)
                              (duration_of appt_type) (granularity st))\<rparr>))"
proof (intro conjI impI)
  assume "strptime_Ymd date_str = None
      \<or> (\<exists>d. strptime_Ymd date_str = Some d \<and> (date_less d today \<or> get_working_hours st d = None))"
  then show "get_availability st today date_str appt_type
          = Some (Inr \<lparr>av_date = date_str, available_slots = []\<rparr>)"
    by (auto simp: get_availability_def Let_def)
next
  assume a: "strptime_Ymd date_str = Some d \<and> \<not> date_less d today
      \<and> get_working_hours st d = Some wh
      \<and> strptime_HM (wh_start wh) = Some ws \<and> strptime_HM (wh_end wh) = Some we
      \<and> 0 < granularity st \<and> times_ok st"
  let ?dur = "duration_of appt_type"
  have tot: "\<And>t. \<exists>v. is_slot_available st d t ?dur = Inr v"
    using a by (blast intro: is_slot_available_total)
  from a time_to_minutes_range[of "wh_end wh" we] time_to_minutes_range[of "wh_start wh" ws]
  have e: "time_to_minutes we \<le> 1439" and c: "0 \<le> time_to_minutes ws" by auto
  from a have pos: "0 < granularity st" by simp
  have dur0: "0 \<le> ?dur" using duration_of_pos[of appt_type] by simp
  from slot_loop_total[OF pos e dur0 tot c, of "[]"] obtain r where
    r: "slot_loop st d ?dur (granularity st) (time_to_minutes we) (time_to_minutes ws) []
          = Some (Inr r)" by blast
  from slot_loop_partial[OF r]
  have "r = map (slot_at st d ?dur)
              (candidate_starts (time_to_minutes ws) (time_to_minutes we) ?dur (granularity st))"
    by simp
  with r a show "get_availability st today date_str appt_type
          = Some (Inr \<lparr>av_date = date_str,
                       available_slots =
                         map (slot_at st d (duration_of appt_type))
                           (candidate_starts (time_to_minutes ws) (time_to_minutes we)
                              (duration_of appt_type) (granularity st))\<rparr>)"
    by (simp add: get_availability_def Let_def parse_time_def granularity_def)
qed


lemma clinic_monday_hours:
  "get_working_hours clinic \<lparr>year = 2030, month = 1, day = 7\<rparr> = Some clinic_hours"
  by code_simp

lemma clinic_times_ok: "times_ok clinic"
  by code_simp

theorem get_availability_grid_witness:
  "get_availability clinic new_year_2030 ''next monday'' ''consultation''
     = Some (Inr \<lparr>av_date = ''next monday'', available_slots = []\<rparr>)
   \<and> get_availability clinic new_year_2030 ''2030-01-07'' ''consultation''
     = Some (Inr \<lparr>av_date = ''2030-01-07'',
                  available_slots =
                    map (slot_at clinic \<lparr>year = 2030, month = 1, day = 7\<rparr> 30)
                      (candidate_starts 540 1020 30 15)\<rparr>)
   \<and> 705 \<in> set (candidate_starts 540 1020 30 15)
   \<and> slot_at clinic \<lparr>year = 2030, month = 1, day = 7\<rparr> 30 705
       = \<lparr>slot_start_time = ''11:45'', slot_end_time = ''12:15'', available = False\<rparr>
   \<and> slot_at clinic \<lparr>year = 2030, month = 1, day = 7\<rparr> 30 540
       = \<lparr>slot_start_time = ''09:00'', slot_end_time = ''09:30'', available = True\<rparr>"
proof -
  let ?d = "\<lparr>year = 2030, month = 1, day = 7\<rparr>"
  let ?ws = "\<lparr>hour = 9, minute = 0\<rparr>" and ?we = "\<lparr>hour = 17, minute = 0\<rparr>"
  have n: "strptime_Ymd ''next monday'' = None" by code_simp
  have past: "\<not> date_less ?d new_year_2030" by code_simp
  have ws: "strptime_HM (wh_start clinic_hours) = Some ?ws" by code_simp
  have we: "strptime_HM (wh_end clinic_hours) = Some ?we" by code_simp
  have g: "granularity clinic = 15" by code_simp
  have du: "duration_of ''consultation'' = 30" by code_simp
  have m: "time_to_minutes ?ws = 540" "time_to_minutes ?we = 1020" by code_simp+
  note a = get_availability_grid[of "''next monday''" new_year_2030 clinic "''consultation''"
             ?d clinic_hours ?ws ?we]
  note b = get_availability_grid[of "''2030-01-07''" new_year_2030 clinic "''consultation''"
             ?d clinic_hours ?ws ?we]
  from a n have 1: "get_availability clinic new_year_2030 ''next monday'' ''consultation''
     = Some (Inr \<lparr>av_date = ''next monday'', available_slots = []\<rparr>)" by blast
  from b parse_monday past clinic_monday_hours ws we g clinic_times_ok
  have "get_availability clinic new_year_2030 ''2030-01-07'' ''consultation''
          = Some (Inr \<lparr>av_date = ''2030-01-07'',
                       available_slots =
                         map (slot_at clinic ?d (duration_of ''consultation''))
                           (candidate_starts (time_to_minutes ?ws) (time_to_minutes ?we)
                              (duration_of ''consultation'') (granularity clinic))\<rparr>)"
    by simp
  then have 2: "get_availability clinic new_year_2030 ''2030-01-07'' ''consultation''
     = Some (Inr \<lparr>av_date = ''2030-01-07'',
                  available_slots = map (slot_at clinic ?d 30) (candidate_starts 540 1020 30 15)\<rparr>)"
    by (simp only: g du m)
  have 3: "705 \<in> set (candidate_starts 540 1020 30 15)" by code_simp
  have 4: "slot_at clinic ?d 30 705
       = \<lparr>slot_start_time = ''11:45'', slot_end_time = ''12:15'', available = False\<rparr>"
    by code_simp
  have 5: "slot_at clinic ?d 30 540
       = \<lparr>slot_start_time = ''09:00'', slot_end_time = ''09:30'', available = True\<rparr>"
    by code_simp
  from 1 2 3 4 5 show ?thesis by blast
qed

section \<open>Dates\<close>

lemma days_in_month_bounds: "28 \<le> days_in_month y m \<and> days_in_month y m \<le> 31"
  by (simp add: days_in_month_def)

lemma next_day_cases:
  assumes "next_day d = Inr d'"
  shows "(day d < days_in_month (year d) (month d)
            \<and> year d' = year d \<and> month d' = month d \<and> day d' = day d + 1)
       \<or> (\<not> day d < days_in_month (year d) (month d) \<and> month d < 12
            \<and> year d' = year d \<and> month d' = month d + 1 \<and> day d' = 1)
       \<or> (\<not> day d < days_in_month (year d) (month d) \<and> \<not> month d < 12 \<and> year d < 9999
            \<and> year d' = year d + 1 \<and> month d' = 1 \<and> day d' = 1)"
proof (cases "day d < days_in_month (year d) (month d)")
  case True
  with assms have "d' = d\<lparr>day := day d + 1\<rparr>" by (simp add: next_day_def)
  with True show ?thesis by simp
next
  case False
  show ?thesis
  proof (cases "month d < 12")
    case True
    with assms False have "d' = d\<lparr>month := month d + 1, day := 1\<rparr>" by (simp add: next_day_def)
    with False True show ?thesis by simp
  next
    case m: False
    show ?thesis
    proof (cases "year d < 9999")
      case True
      with assms False m have "d' = \<lparr>year = year d + 1, month = 1, day = 1\<rparr>"
        by (simp add: next_day_def)
      with False m True show ?thesis by simp
    next
      case y: False
      with assms False m show ?thesis by (simp add: next_day_def)
    qed
  qed
qed

lemma next_day_less: "next_day d = Inr d' \<Longrightarrow> date_less d d'"
  by (drule next_day_cases) (auto simp: date_less_def)

lemma next_day_valid:
  assumes "valid_date d" "next_day d = Inr d'"
  shows "valid_date d'"
proof -
  from assms(1) have v: "1 \<le> year d" "year d \<le> 9999" "1 \<le> month d" "month d \<le> 12"
    "1 \<le> day d" "day d \<le> days_in_month (year d) (month d)"
    by (simp_all add: valid_date_def)
  have b1: "1 \<le> days_in_month (year d) (month d + 1)"
    using days_in_month_bounds[of "year d" "month d + 1"] by linarith
  have b2: "1 \<le> days_in_month (year d + 1) 1"
    using days_in_month_bounds[of "year d + 1" 1] by linarith
  from next_day_cases[OF assms(2)] show ?thesis
  proof (elim disjE conjE)
    assume "day d < days_in_month (year d) (month d)" "year d' = year d" "month d' = month d"
      "day d' = day d + 1"
    with v show ?thesis by (simp add: valid_date_def)
  next
    assume "month d < 12" "year d' = year d" "month d' = month d + 1" "day d' = 1"
    with v b1 show ?thesis by (simp add: valid_date_def)
  next
    assume "year d < 9999" "year d' = year d + 1" "month d' = 1" "day d' = 1"
    with v b2 show ?thesis by (simp add: valid_date_def)
  qed
qed

lemma date_less_trans: "date_less a b \<Longrightarrow> date_less b c \<Longrightarrow> date_less a c"
  unfolding date_less_def by linarith

lemma add_days_valid: "valid_date d \<Longrightarrow> add_days d k = Inr d' \<Longrightarrow> valid_date d'"
proof (induction k arbitrary: d)
  case 0
  then show ?case by simp
next
  case (Suc k)
  from Suc.prems(2) obtain d1 where d1: "next_day d = Inr d1" and r: "add_days d1 k = Inr d'"
    by (cases "next_day d") auto
  from Suc.IH[OF next_day_valid[OF Suc.prems(1) d1] r] show ?case .
qed

lemma add_days_less: "add_days d (Suc k) = Inr d' \<Longrightarrow> date_less d d'"
proof (induction k arbitrary: d)
  case 0
  then have "next_day d = Inr d'" by (cases "next_day d") auto
  then show ?case by (rule next_day_less)
next
  case (Suc k)
  from Suc.prems obtain d1 where d1: "next_day d = Inr d1" and r: "add_days d1 (Suc k) = Inr d'"
    by (cases "next_day d") auto
  from next_day_less[OF d1] Suc.IH[OF r] show ?case by (rule date_less_trans)
qed

lemma add_days_add:
  "add_days d (m + k) = (case add_days d m of Inl e \<Rightarrow> Inl e | Inr d1 \<Rightarrow> add_days d1 k)"
proof (induction m arbitrary: d)
  case 0
  then show ?case by simp
next
  case (Suc m)
  show ?case by (cases "next_day d") (simp_all add: Suc.IH)
qed

lemma add_days_mono:
  assumes "i < j" "add_days d i = Inr di" "add_days d j = Inr dj"
  shows "date_less di dj"
proof -
  from less_imp_Suc_add[OF assms(1)] obtain k where "j = Suc (i + k)" by blast
  then have j: "j = i + Suc k" by simp
  from assms(3) have "add_days di (Suc k) = Inr dj"
    unfolding j add_days_add assms(2) by simp
  then show ?thesis by (rule add_days_less)
qed

lemma pad2_parse:
  assumes "0 \<le> n" "n \<le> 99"
  shows "digit_of (digit_char (n div 10 mod 10)) = Some (n div 10)"
    and "digit_of (digit_char (n mod 10)) = Some (n mod 10)"
    and "digit_char (n mod 10) \<noteq> CHR ''-''"
    and "digit_char (n div 10 mod 10) \<noteq> CHR '' ''"
proof -
  have a: "n div 10 mod 10 = n div 10" using assms by simp
  have b1: "0 \<le> n div 10" using assms by simp
  have b2: "n div 10 \<le> 9" using assms by linarith
  have c1: "0 \<le> n mod 10" by simp
  have c2: "n mod 10 \<le> 9" by simp
  show "digit_of (digit_char (n div 10 mod 10)) = Some (n div 10)"
    unfolding a using b1 b2 by (rule digit_of_digit_char)
  show "digit_of (digit_char (n mod 10)) = Some (n mod 10)"
    using c1 c2 by (rule digit_of_digit_char)
  show "digit_char (n mod 10) \<noteq> CHR ''-''"
    using digit_char_not_sep[OF c1 c2] by blast
  show "digit_char (n div 10 mod 10) \<noteq> CHR '' ''"
    unfolding a using digit_char_not_sep[OF b1 b2] by blast
qed

lemma day_field_two:
  assumes "digit_of a = Some x" "digit_of b = Some y" "a \<noteq> CHR '' ''"
    "1 \<le> 10 * x + y" "10 * x + y \<le> 31"
  shows "day_field [a, b] = Some (10 * x + y)"
  using assms by (simp add: day_field_def)

lemma day_field_pad2:
  assumes "1 \<le> n" "n \<le> 31"
  shows "day_field (pad2 n) = Some n"
proof -
  have p: "0 \<le> n" "n \<le> 99" using assms by auto
  have e: "10 * (n div 10) + n mod 10 = n" by (rule mult_div_mod_eq)
  have "day_field [digit_char (n div 10 mod 10), digit_char (n mod 10)]
        = Some (10 * (n div 10) + n mod 10)"
    using pad2_parse(1)[OF p] pad2_parse(2)[OF p] pad2_parse(4)[OF p]
  proof (rule day_field_two)
    show "1 \<le> 10 * (n div 10) + n mod 10" unfolding e by (rule assms(1))
    show "10 * (n div 10) + n mod 10 \<le> 31" unfolding e by (rule assms(2))
  qed
  then show ?thesis unfolding e pad2_def .
qed

lemma month_day_fields_two:
  assumes "digit_of a = Some x" "digit_of b = Some y" "b \<noteq> CHR ''-''"
    "1 \<le> 10 * x + y" "10 * x + y \<le> 12" "day_field rest = Some dd"
  shows "month_day_fields (a # b # CHR ''-'' # rest) = Some (10 * x + y, dd)"
  using assms by (simp add: month_day_fields_def)

lemma month_day_fields_pad2:
  assumes "1 \<le> m" "m \<le> 12" "1 \<le> n" "n \<le> 31"
  shows "month_day_fields (pad2 m @ ''-'' @ pad2 n) = Some (m, n)"
proof -
  have p: "0 \<le> m" "m \<le> 99" using assms by auto
  have e: "10 * (m div 10) + m mod 10 = m" by (rule mult_div_mod_eq)
  have d: "day_field (pad2 n) = Some n" using assms(3,4) by (rule day_field_pad2)
  have "month_day_fields (digit_char (m div 10 mod 10) # digit_char (m mod 10) # CHR ''-'' # pad2 n)
        = Some (10 * (m div 10) + m mod 10, n)"
    using pad2_parse(1)[OF p] pad2_parse(2)[OF p] pad2_parse(3)[OF p]
  proof (rule month_day_fields_two)
    show "1 \<le> 10 * (m div 10) + m mod 10" unfolding e by (rule assms(1))
    show "10 * (m div 10) + m mod 10 \<le> 12" unfolding e by (rule assms(2))
    show "day_field (pad2 n) = Some n" by (rule d)
  qed
  then show ?thesis unfolding e by (simp add: pad2_def)
qed

lemma strptime_Ymd_four:
  assumes "digit_of y1 = Some a" "digit_of y2 = Some b" "digit_of y3 = Some c" "digit_of y4 = Some e"
    "month_day_fields rest = Some (m, dd)"
    "valid_date \<lparr>year = 1000 * a + 100 * b + 10 * c + e, month = m, day = dd\<rparr>"
  shows "strptime_Ymd (y1 # y2 # y3 # y4 # CHR ''-'' # rest)
         = Some \<lparr>year = 1000 * a + 100 * b + 10 * c + e, month = m, day = dd\<rparr>"
  using assms by (simp add: strptime_Ymd_def Let_def)

lemma strptime_strftime_Ymd:
  assumes "valid_date d"
  shows "strptime_Ymd (strftime_Ymd d) = Some d"
proof -
  let ?y = "year d"
  from assms have y: "1 \<le> ?y" "?y \<le> 9999" and m: "1 \<le> month d" "month d \<le> 12"
    and dd: "1 \<le> day d" "day d \<le> 31"
    using days_in_month_bounds[of "year d" "month d"] by (auto simp: valid_date_def)
  have r: "0 \<le> ?y div 1000 mod 10 \<and> ?y div 1000 mod 10 \<le> 9"
          "0 \<le> ?y div 100 mod 10 \<and> ?y div 100 mod 10 \<le> 9"
          "0 \<le> ?y div 10 mod 10 \<and> ?y div 10 mod 10 \<le> 9"
          "0 \<le> ?y mod 10 \<and> ?y mod 10 \<le> 9" by simp_all
  have e: "1000 * (?y div 1000 mod 10) + 100 * (?y div 100 mod 10) + 10 * (?y div 10 mod 10) + ?y mod 10 = ?y"
  proof -
    have k: "?y div 1000 = ?y div 100 div 10" using zdiv_zmult2_eq[of 10 ?y 100] by simp
    have h: "?y div 100 = ?y div 10 div 10" using zdiv_zmult2_eq[of 10 ?y 10] by simp
    have a: "?y div 1000 mod 10 = ?y div 1000" using y by simp
    have b: "10 * (?y div 100 div 10) + ?y div 100 mod 10 = ?y div 100"
      by (rule mult_div_mod_eq)
    have c: "10 * (?y div 10 div 10) + ?y div 10 mod 10 = ?y div 10"
      by (rule mult_div_mod_eq)
    have d: "10 * (?y div 10) + ?y mod 10 = ?y"
      by (rule mult_div_mod_eq)
    from a b c d k h show ?thesis by linarith
  qed
  have md: "month_day_fields (pad2 (month d) @ ''-'' @ pad2 (day d)) = Some (month d, day d)"
    using m dd by (rule month_day_fields_pad2)
  have d1: "digit_of (digit_char (?y div 1000 mod 10)) = Some (?y div 1000 mod 10)"
    using r(1) by (simp add: digit_of_digit_char)
  have d2: "digit_of (digit_char (?y div 100 mod 10)) = Some (?y div 100 mod 10)"
    using r(2) by (simp add: digit_of_digit_char)
  have d3: "digit_of (digit_char (?y div 10 mod 10)) = Some (?y div 10 mod 10)"
    using r(3) by (simp add: digit_of_digit_char)
  have d4: "digit_of (digit_char (?y mod 10)) = Some (?y mod 10)"
    using r(4) by (simp add: digit_of_digit_char)
  have dv: "\<lparr>year = 1000 * (?y div 1000 mod 10) + 100 * (?y div 100 mod 10)
                     + 10 * (?y div 10 mod 10) + ?y mod 10,
             month = month d, day = day d\<rparr> = d"
    unfolding e by simp
  have "strptime_Ymd (digit_char (?y div 1000 mod 10) # digit_char (?y div 100 mod 10) #
          digit_char (?y div 10 mod 10) # digit_char (?y mod 10) # CHR ''-'' #
          (pad2 (month d) @ ''-'' @ pad2 (day d)))
        = Some \<lparr>year = 1000 * (?y div 1000 mod 10) + 100 * (?y div 100 mod 10)
                     + 10 * (?y div 10 mod 10) + ?y mod 10,
             month = month d, day = day d\<rparr>"
    using d1 d2 d3 d4 md
  proof (rule strptime_Ymd_four)
    show "valid_date \<lparr>year = 1000 * (?y div 1000 mod 10) + 100 * (?y div 100 mod 10)
                     + 10 * (?y div 10 mod 10) + ?y mod 10,
             month = month d, day = day d\<rparr>"
      unfolding dv by (rule assms)
  qed
  then have "strptime_Ymd (digit_char (?y div 1000 mod 10) # digit_char (?y div 100 mod 10) #
          digit_char (?y div 10 mod 10) # digit_char (?y mod 10) # CHR ''-'' #
          (pad2 (month d) @ ''-'' @ pad2 (day d))) = Some d"
    unfolding dv .
  then show ?thesis by (simp add: strftime_Ymd_def pad4_def)
qed

section \<open>Suggestions\<close>

lemma collect_slots_take:
  "length sug \<le> nat n \<Longrightarrow>
   collect_slots n di slots sug = take (nat n) (sug @ map (suggestion_of di) slots)"
proof (induction slots arbitrary: sug)
  case Nil
  then show ?case by simp
next
  case (Cons s rest)
  show ?case
  proof (cases "int (length sug) \<ge> n")
    case True
    with Cons.prems have "length sug = nat n" by linarith
    with True show ?thesis by simp
  next
    case False
    then have "length (sug @ [suggestion_of di s]) \<le> nat n" by simp
    from Cons.IH[OF this] False show ?thesis
      by (simp add: suggestion_of_def)
  qed
qed

lemma collect_dates_take:
  "length sug \<le> nat n \<Longrightarrow>
   collect_dates n dis sug =
     take (nat n) (sug @ concat (map (\<lambda>di. map (suggestion_of di) (di_available_slots di)) dis))"
proof (induction dis arbitrary: sug)
  case Nil
  then show ?case by simp
next
  case (Cons di rest)
  define X where "X = sug @ map (suggestion_of di) (di_available_slots di)"
  define R where "R = concat (map (\<lambda>di. map (suggestion_of di) (di_available_slots di)) rest)"
  have cs: "collect_slots n di (di_available_slots di) sug = take (nat n) X"
    unfolding X_def using Cons.prems by (rule collect_slots_take)
  have rhs: "sug @ concat (map (\<lambda>di. map (suggestion_of di) (di_available_slots di)) (di # rest))
             = X @ R"
    by (simp add: X_def R_def)
  have step: "collect_dates n (di # rest) sug =
          (if int (length (take (nat n) X)) \<ge> n then take (nat n) X
           else collect_dates n rest (take (nat n) X))"
    by (simp only: collect_dates.simps Let_def cs)
  show ?case
  proof (cases "int (length (take (nat n) X)) \<ge> n")
    case True
    then have "nat n \<le> length X" by simp
    then have "take (nat n) (X @ R) = take (nat n) X" by simp
    with True step rhs show ?thesis by (simp only: if_True)
  next
    case False
    then have lt: "length X < nat n" by simp
    then have tk: "take (nat n) X = X" by simp
    have "length X \<le> nat n" using lt by simp
    from Cons.IH[OF this] have "collect_dates n rest X = take (nat n) (X @ R)"
      by (simp only: R_def)
    with False step rhs tk show ?thesis by (simp only: if_False)
  qed
qed

lemma check_availability_Inr:
  "check_availability st today ds ty pref = Some (Inr result) \<Longrightarrow>
   get_available_slots_only st today ds ty pref = Some (Inr (cr_available_slots result))
   \<and> slots_count result = length (cr_available_slots result)"
  by (auto simp: check_availability_def split: option.splits sum.splits)

lemma scan_days_returns:
  assumes "0 < max_dates"
  shows "int (length acc) < max_dates \<Longrightarrow>
     scan_days st today local_today ty max_dates pref offs acc = Some (Inr r) \<Longrightarrow>
     r = acc @ map (day_info st today local_today ty pref)
               (take (nat max_dates - length acc)
                  (filter (\<lambda>i. day_slots st today local_today ty pref i \<noteq> []) offs))"
proof (induction offs arbitrary: acc)
  case Nil
  then show ?case by simp
next
  case (Cons i rest)
  from Cons.prems(2) obtain d where d: "add_days local_today (nat i) = Inr d"
    by (auto split: sum.splits)
  from Cons.prems(2) d obtain result where
    res: "check_availability st today (strftime_Ymd d) ty pref = Some (Inr result)"
    by (auto split: option.splits sum.splits)
  from check_availability_Inr[OF res]
  have g: "get_available_slots_only st today (strftime_Ymd d) ty pref
             = Some (Inr (cr_available_slots result))"
    and cnt: "slots_count result = length (cr_available_slots result)" by auto
  have ds: "day_slots st today local_today ty pref i = cr_available_slots result"
    by (simp add: day_slots_def d g)
  have dd: "day_date local_today i = d" by (simp add: day_date_def d)
  let ?q = "\<lambda>i. day_slots st today local_today ty pref i \<noteq> []"
  show ?case
  proof (cases "slots_count result > 0")
    case False
    then have nq: "\<not> ?q i" using ds cnt by simp
    from Cons.prems(2) d res False
    have "scan_days st today local_today ty max_dates pref rest acc = Some (Inr r)" by simp
    from Cons.IH[OF Cons.prems(1) this] nq show ?thesis by simp
  next
    case True
    then have q: "?q i" using ds cnt by auto
    let ?info = "\<lparr>di_date = strftime_Ymd d, di_day_name = strftime_A d,
                  di_available_slots = take 5 (cr_available_slots result),
                  total_slots = slots_count result\<rparr>"
    have info: "?info = day_info st today local_today ty pref i"
      by (simp add: day_info_def ds dd cnt)
    have pos: "0 < nat max_dates - length acc" using Cons.prems(1) by linarith
    then obtain k where k: "nat max_dates - length acc = Suc k" by (cases "nat max_dates - length acc") auto
    show ?thesis
    proof (cases "int (length (acc @ [?info])) \<ge> max_dates")
      case True
      with Cons.prems(2) d res \<open>slots_count result > 0\<close> have r: "r = acc @ [?info]"
        by (simp add: Let_def)
      from True Cons.prems(1) have "k = 0" using k by simp
      with r q k info show ?thesis by simp
    next
      case False
      with Cons.prems(2) d res \<open>slots_count result > 0\<close>
      have rec: "scan_days st today local_today ty max_dates pref rest (acc @ [?info]) = Some (Inr r)"
        by (simp add: Let_def)
      from False have lt: "int (length (acc @ [?info])) < max_dates" by simp
      have "nat max_dates - length (acc @ [?info]) = k" using k by simp
      with Cons.IH[OF lt rec] q k info show ?thesis by simp
    qed
  qed
qed

lemma find_next_available_dates_returns:
  assumes "0 < max_dates"
    and "find_next_available_dates st today local_today ty days_to_check max_dates pref = Some (Inr r)"
  shows "r = map (day_info st today local_today ty pref)
               (qualifying_days st today local_today ty pref days_to_check max_dates)"
  using scan_days_returns[OF assms(1), of "[]" st today local_today ty pref "[1..days_to_check]" r]
        assms
  by (simp add: find_next_available_dates_def qualifying_days_def)

lemma suggest_slots_returns:
  assumes "suggest_slots st today local_today None ty pref n = Some (Inr r)"
  shows "r = take (nat n) (flatten_first_five st today local_today ty pref)"
proof -
  from assms obtain dates where
    f: "find_next_available_dates st today local_today ty 14 5 pref = Some (Inr dates)"
    and r: "r = collect_dates n dates []"
    by (auto simp: suggest_slots_def split: option.splits sum.splits)
  from find_next_available_dates_returns[OF _ f]
  have dates: "dates = map (day_info st today local_today ty pref)
               (qualifying_days st today local_today ty pref 14 5)" by simp
  have "collect_dates n dates [] =
        take (nat n) ([] @ concat (map (\<lambda>di. map (suggestion_of di) (di_available_slots di)) dates))"
    by (rule collect_dates_take) simp
  also have "concat (map (\<lambda>di. map (suggestion_of di) (di_available_slots di)) dates)
             = flatten_first_five st today local_today ty pref"
    by (simp add: dates flatten_first_five_def comp_def day_info_def)
  finally show ?thesis using r by simp
qed


section \<open>Order of slots and suggestions\<close>

lemma candidate_starts_sorted:
  assumes "0 < step"
  shows "sorted_wrt (<) (candidate_starts ws we dur step)"
proof -
  have "sorted_wrt (\<lambda>k k'. ws + int k * step < ws + int k' * step) [0..<n]" for n
    using assms by (intro sorted_wrt_mono_rel[OF _ sorted_wrt_upt]) simp
  then show ?thesis by (simp add: candidate_starts_def sorted_wrt_map)
qed

lemma slot_before_slot_at:
  assumes "0 \<le> m" "m + dur \<le> 1439" "0 \<le> dur" "0 \<le> m'" "m' + dur \<le> 1439" "m < m'"
  shows "slot_before (slot_at st d dur m) (slot_at st d dur m')"
proof -
  from slot_at_times[OF assms(1,2,3), of st d] obtain t where
    t: "strptime_HM (slot_start_time (slot_at st d dur m)) = Some t" "time_to_minutes t = m" by blast
  from slot_at_times[OF assms(4,5,3), of st d] obtain t' where
    t': "strptime_HM (slot_start_time (slot_at st d dur m')) = Some t'" "time_to_minutes t' = m'" by blast
  from t t' assms(6) show ?thesis by (simp add: slot_before_def)
qed

lemma filter_slots_sorted:
  "filter_slots pref xs = Inr ys \<Longrightarrow> sorted_wrt R xs \<Longrightarrow> sorted_wrt R ys \<and> set ys \<subseteq> set xs"
proof (induction xs arbitrary: ys)
  case Nil
  then show ?case by simp
next
  case (Cons s rest)
  from Cons.prems(1) obtain filtered where
    f: "filter_slots pref rest = Inr filtered" and
    ys: "ys = s # filtered \<or> ys = filtered"
    by (auto split: sum.splits if_splits)
  from Cons.prems(2) have "sorted_wrt R rest" by simp
  from Cons.IH[OF f this] have ih: "sorted_wrt R filtered" "set filtered \<subseteq> set rest" by auto
  from ys show ?case
  proof
    assume "ys = s # filtered"
    with ih Cons.prems(2) show ?thesis by auto
  next
    assume "ys = filtered"
    with ih show ?thesis by auto
  qed
qed

lemma grid_sorted:
  assumes "get_availability st today ds ty = Some (Inr av)"
  shows "sorted_wrt slot_before (available_slots av)
       \<and> (\<forall>s\<in>set (available_slots av). strptime_HM (slot_start_time s) \<noteq> None)"
proof (cases "available_slots av = []")
  case True
  then show ?thesis by simp
next
  case False
  with get_availability_returns[OF assms]
  have "\<exists>d wh ws we step.
          strptime_Ymd ds = Some d \<and> \<not> date_less d today
        \<and> get_working_hours st d = Some wh
        \<and> strptime_HM (wh_start wh) = Some ws \<and> strptime_HM (wh_end wh) = Some we
        \<and> step = (case slot_duration_minutes (schedule_data st) of None \<Rightarrow> 15 | Some g \<Rightarrow> g)
        \<and> 0 < step
        \<and> available_slots av =
            map (slot_at st d (duration_of ty))
              (candidate_starts (time_to_minutes ws) (time_to_minutes we) (duration_of ty) step)"
    by blast
  then obtain d wh ws we step where
    ws: "strptime_HM (wh_start (wh::hours)) = Some ws" and we: "strptime_HM (wh_end wh) = Some we"
    and pos: "0 < step"
    and sl: "available_slots av =
            map (slot_at st d (duration_of ty))
              (candidate_starts (time_to_minutes ws) (time_to_minutes we) (duration_of ty) step)"
    by blast
  let ?c = "candidate_starts (time_to_minutes ws) (time_to_minutes we) (duration_of ty) step"
  have dur: "0 \<le> duration_of ty" using duration_of_pos[of ty] by simp
  have bnd: "0 \<le> m \<and> m + duration_of ty \<le> 1439" if "m \<in> set ?c" for m
    using candidate_starts_bounds[OF pos that] time_to_minutes_range[OF ws]
          time_to_minutes_range[OF we] by linarith
  have "sorted_wrt (\<lambda>m m'. slot_before (slot_at st d (duration_of ty) m)
                                        (slot_at st d (duration_of ty) m')) ?c"
  proof (rule sorted_wrt_mono_rel[OF _ candidate_starts_sorted[OF pos]])
    fix m m' assume "m \<in> set ?c" "m' \<in> set ?c" "m < m'"
    with bnd[of m] bnd[of m'] dur
    show "slot_before (slot_at st d (duration_of ty) m) (slot_at st d (duration_of ty) m')"
      by (intro slot_before_slot_at) auto
  qed
  then have 1: "sorted_wrt slot_before (available_slots av)"
    by (simp add: sl sorted_wrt_map)
  have 2: "\<forall>s\<in>set (available_slots av). strptime_HM (slot_start_time s) \<noteq> None"
  proof
    fix s assume "s \<in> set (available_slots av)"
    then obtain m where m: "m \<in> set ?c" and s: "s = slot_at st d (duration_of ty) m"
      by (auto simp: sl)
    from bnd[OF m] dur slot_at_times[of m "duration_of ty" st d]
    show "strptime_HM (slot_start_time s) \<noteq> None" unfolding s by auto
  qed
  from 1 2 show ?thesis by blast
qed

lemma available_only_sorted:
  assumes "get_available_slots_only st today ds ty pref = Some (Inr xs)"
  shows "sorted_wrt slot_before xs \<and> (\<forall>s\<in>set xs. strptime_HM (slot_start_time s) \<noteq> None)"
proof -
  from assms obtain av where av: "get_availability st today ds ty = Some (Inr av)"
    by (auto simp: get_available_slots_only_def split: option.splits sum.splits)
  let ?a = "filter available (available_slots av)"
  from grid_sorted[OF av] have a: "sorted_wrt slot_before ?a"
    and p: "\<forall>s\<in>set ?a. strptime_HM (slot_start_time s) \<noteq> None"
    by (auto simp: sorted_wrt_filter)
  from assms av have "xs = ?a \<or> (\<exists>p. filter_slots p ?a = Inr xs)"
    by (auto simp: get_available_slots_only_def Let_def split: option.splits if_splits)
  then show ?thesis
  proof
    assume "xs = ?a"
    with a p show ?thesis by simp
  next
    assume "\<exists>p. filter_slots p ?a = Inr xs"
    then obtain p' where "filter_slots p' ?a = Inr xs" by blast
    from filter_slots_sorted[OF this a] p show ?thesis by blast
  qed
qed

lemma sorted_wrt_concat_map:
  "sorted_wrt (\<lambda>i j. \<forall>x\<in>set (g i). \<forall>y\<in>set (g j). R x y) xs \<Longrightarrow>
   (\<forall>i\<in>set xs. sorted_wrt R (g i)) \<Longrightarrow>
   sorted_wrt R (concat (map g xs))"
  by (induction xs) (auto simp: sorted_wrt_append)

lemma qualifying_day:
  assumes "day_slots st today local_today ty pref i \<noteq> []"
  shows "\<exists>d. add_days local_today (nat i) = Inr d \<and> day_date local_today i = d
           \<and> get_available_slots_only st today (strftime_Ymd d) ty pref
               = Some (Inr (day_slots st today local_today ty pref i))"
proof -
  from assms obtain d where d: "add_days local_today (nat i) = Inr d"
    by (cases "add_days local_today (nat i)") (auto simp: day_slots_def)
  with assms obtain xs where
    xs: "get_available_slots_only st today (strftime_Ymd d) ty pref = Some (Inr xs)"
    by (auto simp: day_slots_def split: option.splits sum.splits)
  then have "day_slots st today local_today ty pref i = xs" by (simp add: day_slots_def d)
  with d xs show ?thesis by (simp add: day_date_def)
qed

lemma qualifying_days_props:
  "sorted_wrt (<) (qualifying_days st today local_today ty pref n k)
   \<and> (\<forall>i\<in>set (qualifying_days st today local_today ty pref n k).
        1 \<le> i \<and> i \<le> n \<and> day_slots st today local_today ty pref i \<noteq> [])"
proof -
  let ?f = "filter (\<lambda>i. day_slots st today local_today ty pref i \<noteq> []) [1..n]"
  have "sorted_wrt (<) ?f" by (simp add: sorted_wrt_filter)
  then have 1: "sorted_wrt (<) (take (nat k) ?f)" by (rule sorted_wrt_take)
  have 2: "\<forall>i\<in>set (take (nat k) ?f). 1 \<le> i \<and> i \<le> n \<and> day_slots st today local_today ty pref i \<noteq> []"
    using set_take_subset[of "nat k" ?f] by auto
  from 1 2 show ?thesis unfolding qualifying_days_def by blast
qed

lemma day_suggestions_props:
  assumes v: "valid_date local_today" and i: "1 \<le> i"
    and q: "day_slots st today local_today ty pref i \<noteq> []"
    and x: "x \<in> set (map (suggestion_of (day_info st today local_today ty pref i))
                     (take 5 (day_slots st today local_today ty pref i)))"
  shows "\<exists>d s. add_days local_today (nat i) = Inr d \<and> valid_date d \<and> date_less local_today d
           \<and> sg_date x = strftime_Ymd d \<and> strptime_Ymd (sg_date x) = Some d
           \<and> s \<in> set (day_slots st today local_today ty pref i)
           \<and> sg_start_time x = slot_start_time s \<and> sg_end_time x = slot_end_time s
           \<and> sg_day_name x = strftime_A d
           \<and> strptime_HM (sg_start_time x) \<noteq> None"
proof -
  from qualifying_day[OF q] obtain d where
    d: "add_days local_today (nat i) = Inr d" and dd: "day_date local_today i = d"
    and g: "get_available_slots_only st today (strftime_Ymd d) ty pref
               = Some (Inr (day_slots st today local_today ty pref i))" by blast
  from add_days_valid[OF v d] have vd: "valid_date d" .
  from i obtain k where k: "nat i = Suc k" by (cases "nat i") auto
  from d have less: "date_less local_today d" unfolding k by (rule add_days_less)
  from x obtain s where s: "s \<in> set (take 5 (day_slots st today local_today ty pref i))"
    and xs: "x = suggestion_of (day_info st today local_today ty pref i) s" by auto
  from s have s': "s \<in> set (day_slots st today local_today ty pref i)" by (rule in_set_takeD)
  from available_only_sorted[OF g] s' have p: "strptime_HM (slot_start_time s) \<noteq> None" by blast
  have e1: "sg_date x = strftime_Ymd d" by (simp add: xs suggestion_of_def day_info_def dd)
  have e2: "sg_day_name x = strftime_A d" by (simp add: xs suggestion_of_def day_info_def dd)
  have e3: "sg_start_time x = slot_start_time s" by (simp add: xs suggestion_of_def)
  have e4: "sg_end_time x = slot_end_time s" by (simp add: xs suggestion_of_def)
  have e5: "strptime_Ymd (sg_date x) = Some d" unfolding e1 using vd by (rule strptime_strftime_Ymd)
  have e6: "strptime_HM (sg_start_time x) \<noteq> None" unfolding e3 by (rule p)
  from d vd less e1 e5 s' e3 e4 e2 e6 show ?thesis by blast
qed


lemma slot_beforeD:
  "slot_before a b \<Longrightarrow>
   \<exists>ta tb. strptime_HM (slot_start_time a) = Some ta \<and> strptime_HM (slot_start_time b) = Some tb
          \<and> time_to_minutes ta < time_to_minutes tb"
  by (cases "strptime_HM (slot_start_time a)"; cases "strptime_HM (slot_start_time b)")
     (simp_all add: slot_before_def)

lemma suggestion_beforeI:
  "strptime_Ymd (sg_date a) = Some da \<Longrightarrow> strptime_Ymd (sg_date b) = Some db \<Longrightarrow>
   strptime_HM (sg_start_time a) = Some ta \<Longrightarrow> strptime_HM (sg_start_time b) = Some tb \<Longrightarrow>
   date_less da db \<or> (da = db \<and> time_to_minutes ta < time_to_minutes tb) \<Longrightarrow>
   suggestion_before a b"
  by (simp add: suggestion_before_def)

lemma suggestion_before_same_day:
  assumes "strptime_Ymd (di_date di) = Some d" "slot_before a b"
  shows "suggestion_before (suggestion_of di a) (suggestion_of di b)"
proof -
  from slot_beforeD[OF assms(2)] obtain ta tb where
    t: "strptime_HM (slot_start_time a) = Some ta" "strptime_HM (slot_start_time b) = Some tb"
       "time_to_minutes ta < time_to_minutes tb" by blast
  show ?thesis
  proof (rule suggestion_beforeI)
    show "strptime_Ymd (sg_date (suggestion_of di a)) = Some d"
      using assms(1) by (simp add: suggestion_of_def)
    show "strptime_Ymd (sg_date (suggestion_of di b)) = Some d"
      using assms(1) by (simp add: suggestion_of_def)
    show "strptime_HM (sg_start_time (suggestion_of di a)) = Some ta"
      using t(1) by (simp add: suggestion_of_def)
    show "strptime_HM (sg_start_time (suggestion_of di b)) = Some tb"
      using t(2) by (simp add: suggestion_of_def)
    show "date_less d d \<or> (d = d \<and> time_to_minutes ta < time_to_minutes tb)"
      using t(3) by simp
  qed
qed

lemma flatten_first_five_sorted:
  assumes v: "valid_date local_today"
  shows "sorted_wrt suggestion_before (flatten_first_five st today local_today ty pref)"
proof -
  define g where "g = (\<lambda>i. map (suggestion_of (day_info st today local_today ty pref i))
                    (take 5 (day_slots st today local_today ty pref i)))"
  define qs where "qs = qualifying_days st today local_today ty pref 14 5"
  note qp = qualifying_days_props[of st today local_today ty pref 14 5, folded qs_def]
  have within: "sorted_wrt suggestion_before (g i)" if "i \<in> set qs" for i
  proof -
    from qp that have i1: "1 \<le> i" and q: "day_slots st today local_today ty pref i \<noteq> []" by auto
    from qualifying_day[OF q] obtain d where
      d: "add_days local_today (nat i) = Inr d" and dd: "day_date local_today i = d"
      and gs: "get_available_slots_only st today (strftime_Ymd d) ty pref
               = Some (Inr (day_slots st today local_today ty pref i))" by blast
    from add_days_valid[OF v d] have vd: "valid_date d" .
    have pd: "strptime_Ymd (di_date (day_info st today local_today ty pref i)) = Some d"
      using strptime_strftime_Ymd[OF vd] by (simp add: day_info_def dd)
    from available_only_sorted[OF gs]
    have "sorted_wrt slot_before (day_slots st today local_today ty pref i)" by blast
    then have "sorted_wrt slot_before (take 5 (day_slots st today local_today ty pref i))"
      by (rule sorted_wrt_take)
    then have "sorted_wrt (\<lambda>a b. suggestion_before
                 (suggestion_of (day_info st today local_today ty pref i) a)
                 (suggestion_of (day_info st today local_today ty pref i) b))
               (take 5 (day_slots st today local_today ty pref i))"
      by (rule sorted_wrt_mono_rel[rotated]) (rule suggestion_before_same_day[OF pd])
    then show ?thesis unfolding g_def sorted_wrt_map .
  qed
  have across: "sorted_wrt (\<lambda>i j. \<forall>x\<in>set (g i). \<forall>y\<in>set (g j). suggestion_before x y) qs"
  proof (rule sorted_wrt_mono_rel[where P = "(<)"])
    show "sorted_wrt (<) qs" using qp by blast
  next
    fix i j assume ij: "i \<in> set qs" "j \<in> set qs" "i < j"
    from qp ij have i1: "1 \<le> i" "1 \<le> j"
      and qi: "day_slots st today local_today ty pref i \<noteq> []"
      and qj: "day_slots st today local_today ty pref j \<noteq> []" by auto
    show "\<forall>x\<in>set (g i). \<forall>y\<in>set (g j). suggestion_before x y"
    proof (intro ballI)
      fix x y assume x: "x \<in> set (g i)" and y: "y \<in> set (g j)"
      from day_suggestions_props[OF v i1(1) qi x[unfolded g_def]] obtain di where
        di: "add_days local_today (nat i) = Inr di" "strptime_Ymd (sg_date x) = Some di"
            "strptime_HM (sg_start_time x) \<noteq> None" by blast
      from day_suggestions_props[OF v i1(2) qj y[unfolded g_def]] obtain dj where
        dj: "add_days local_today (nat j) = Inr dj" "strptime_Ymd (sg_date y) = Some dj"
            "strptime_HM (sg_start_time y) \<noteq> None" by blast
      from di(3) obtain tx where tx: "strptime_HM (sg_start_time x) = Some tx" by blast
      from dj(3) obtain ty' where ty': "strptime_HM (sg_start_time y) = Some ty'" by blast
      have "nat i < nat j" using ij(3) i1 by simp
      from add_days_mono[OF this di(1) dj(1)] have "date_less di dj" .
      then have "date_less di dj \<or> (di = dj \<and> time_to_minutes tx < time_to_minutes ty')" by simp
      with di(2) dj(2) tx ty' show "suggestion_before x y" by (rule suggestion_beforeI)
    qed
  qed
  have "sorted_wrt suggestion_before (concat (map g qs))"
    using across within by (intro sorted_wrt_concat_map) auto
  then show ?thesis by (simp add: flatten_first_five_def g_def qs_def)
qed

lemma flatten_first_five_dates:
  assumes v: "valid_date local_today"
    and x: "x \<in> set (flatten_first_five st today local_today ty pref)"
  shows "\<exists>i d. 1 \<le> i \<and> i \<le> 14 \<and> add_days local_today (nat i) = Inr d
              \<and> sg_date x = strftime_Ymd d \<and> strptime_Ymd (sg_date x) = Some d
              \<and> date_less local_today d"
proof -
  from x obtain i where
    i: "i \<in> set (qualifying_days st today local_today ty pref 14 5)"
    and xi: "x \<in> set (map (suggestion_of (day_info st today local_today ty pref i))
                     (take 5 (day_slots st today local_today ty pref i)))"
    unfolding flatten_first_five_def by auto
  from qualifying_days_props[of st today local_today ty pref 14 5] i
  have i1: "1 \<le> i" and i14: "i \<le> 14" and q: "day_slots st today local_today ty pref i \<noteq> []"
    by auto
  from day_suggestions_props[OF v i1 q xi] obtain d where
    "add_days local_today (nat i) = Inr d" "sg_date x = strftime_Ymd d"
    "strptime_Ymd (sg_date x) = Some d" "date_less local_today d" by blast
  with i1 i14 show ?thesis by blast
qed

section \<open>Day-major suggestions\<close>





section \<open>Ordering and cap of suggestions\<close>

lemma available_only_not_past:
  assumes "get_available_slots_only st today ds ty pref = Some (Inr xs)" and "xs \<noteq> []"
  shows "\<exists>d. strptime_Ymd ds = Some d \<and> \<not> date_less d today"
proof -
  from assms(1) obtain av where av: "get_availability st today ds ty = Some (Inr av)"
    by (auto simp: get_available_slots_only_def split: option.splits sum.splits)
  let ?a = "filter available (available_slots av)"
  from assms(1) av have "xs = ?a \<or> (\<exists>p. filter_slots p ?a = Inr xs)"
    by (auto simp: get_available_slots_only_def Let_def split: option.splits if_splits)
  then have "set xs \<subseteq> set (available_slots av)"
  proof
    assume "xs = ?a"
    then show ?thesis by auto
  next
    assume "\<exists>p. filter_slots p ?a = Inr xs"
    then obtain p where "filter_slots p ?a = Inr xs" by blast
    from filter_slots_sorted[OF this, of "\<lambda>a b. True"] show ?thesis by auto
  qed
  with assms(2) have "available_slots av \<noteq> []" by auto
  with get_availability_returns[OF av] show ?thesis by blast
qed

lemma flatten_first_five_not_past:
  assumes v: "valid_date local_today"
    and x: "x \<in> set (flatten_first_five st today local_today ty pref)"
  shows "\<exists>d. strptime_Ymd (sg_date x) = Some d \<and> date_less local_today d \<and> \<not> date_less d today"
proof -
  from x obtain i where
    i: "i \<in> set (qualifying_days st today local_today ty pref 14 5)"
    and xi: "x \<in> set (map (suggestion_of (day_info st today local_today ty pref i))
                     (take 5 (day_slots st today local_today ty pref i)))"
    unfolding flatten_first_five_def by auto
  from qualifying_days_props[of st today local_today ty pref 14 5] i
  have i1: "1 \<le> i" and q: "day_slots st today local_today ty pref i \<noteq> []"
    by auto
  from day_suggestions_props[OF v i1 q xi] obtain d where
    d: "add_days local_today (nat i) = Inr d" "valid_date d"
       "strptime_Ymd (sg_date x) = Some d" "date_less local_today d" by blast
  from qualifying_day[OF q] d(1) have
    "get_available_slots_only st today (strftime_Ymd d) ty pref
       = Some (Inr (day_slots st today local_today ty pref i))" by auto
  from available_only_not_past[OF this q] strptime_strftime_Ymd[OF d(2)]
  have "\<not> date_less d today" by auto
  with d show ?thesis by blast
qed

text \<open>
  What holds of every returned suggestion list when no date is preferred: it has at most
  \<open>num_suggestions\<close> entries (none when that number is negative); it is strictly
  ascending in the order "earlier date, or same date and earlier start time", so its
  entries are grouped by date, the dates ascend strictly and the start times ascend
  within a date; and every entry's date is one of the 14 days after \<open>local_today\<close>, the
  date of the tool's naive clock, and not before \<open>today\<close>, the date in the configured
  timezone.  When the two clocks show the same date, every entry is dated strictly after
  today.
\<close>

lemma suggest_slots_ordered_capped:
  assumes "valid_date local_today"
    and "suggest_slots st today local_today None appt_type pref n = Some (Inr r)"
  shows "int (length r) \<le> max 0 n
       \<and> sorted_wrt suggestion_before r
       \<and> (\<forall>s\<in>set r. \<exists>i d. 1 \<le> i \<and> i \<le> 14 \<and> add_days local_today (nat i) = Inr d
              \<and> sg_date s = strftime_Ymd d \<and> strptime_Ymd (sg_date s) = Some d
              \<and> date_less local_today d \<and> \<not> date_less d today)"
proof -
  let ?F = "flatten_first_five st today local_today appt_type pref"
  from suggest_slots_returns[OF assms(2)] have r: "r = take (nat n) ?F" .
  have 1: "int (length r) \<le> max 0 n" unfolding r by simp
  have 2: "sorted_wrt suggestion_before r"
    unfolding r using flatten_first_five_sorted[OF assms(1)] by (rule sorted_wrt_take)
  have 3: "\<forall>s\<in>set r. \<exists>i d. 1 \<le> i \<and> i \<le> 14 \<and> add_days local_today (nat i) = Inr d
              \<and> sg_date s = strftime_Ymd d \<and> strptime_Ymd (sg_date s) = Some d
              \<and> date_less local_today d \<and> \<not> date_less d today"
  proof
    fix s assume "s \<in> set r"
    then have s: "s \<in> set ?F" unfolding r by (rule in_set_takeD)
    from flatten_first_five_dates[OF assms(1) s] obtain i d where
      a: "1 \<le> i" "i \<le> 14" "add_days local_today (nat i) = Inr d"
         "sg_date s = strftime_Ymd d" "strptime_Ymd (sg_date s) = Some d"
         "date_less local_today d" by blast
    from flatten_first_five_not_past[OF assms(1) s] a(5) have "\<not> date_less d today" by auto
    with a show "\<exists>i d. 1 \<le> i \<and> i \<le> 14 \<and> add_days local_today (nat i) = Inr d
              \<and> sg_date s = strftime_Ymd d \<and> strptime_Ymd (sg_date s) = Some d
              \<and> date_less local_today d \<and> \<not> date_less d today" by blast
  qed
  from 1 2 3 show ?thesis by blast
qed

lemma suggest_slots_after_today_same_clock:
  assumes "valid_date today"
    and "suggest_slots st today today None appt_type pref n = Some (Inr r)"
    and "s \<in> set r"
  shows "\<exists>d. strptime_Ymd (sg_date s) = Some d \<and> date_less today d"
  using suggest_slots_ordered_capped[OF assms(1,2)] assms(3) by blast

text \<open>
  C7 (the code at the failing input).  \<^verbatim>\<open>find_next_available_dates\<close> starts its scan
  one day after \<^verbatim>\<open>datetime.now().date()\<close>, the date of the server's naive clock, while
  \<^verbatim>\<open>get_availability\<close> takes today from \<^verbatim>\<open>datetime.now(self.timezone)\<close>.  When it
  is still Monday 2030-01-07 on the server and already Tuesday 2030-01-08 in the
  configured timezone, the three suggestions returned for the small clinic are all dated
  2030-01-08, which is today and not a date strictly after today.
\<close>

theorem suggestions_dated_today:
  "suggest_slots small_clinic clinic_tuesday server_monday None ''consultation'' None 3 =
     Some (Inr
       [\<lparr>sg_date = ''2030-01-08'', sg_start_time = ''09:00'', sg_end_time = ''09:30'', sg_day_name = ''Tuesday''\<rparr>,
        \<lparr>sg_date = ''2030-01-08'', sg_start_time = ''09:30'', sg_end_time = ''10:00'', sg_day_name = ''Tuesday''\<rparr>,
        \<lparr>sg_date = ''2030-01-08'', sg_start_time = ''10:00'', sg_end_time = ''10:30'', sg_day_name = ''Tuesday''\<rparr>])
   \<and> strptime_Ymd ''2030-01-08'' = Some clinic_tuesday
   \<and> add_days server_monday 1 = Inr clinic_tuesday"
  by code_simp


section \<open>What the availability check does guarantee\<close>

lemma check_existing_True:
  "check_existing ds s e bs = Inr True \<Longrightarrow>
   \<forall>b\<in>set bs. date b = ds \<and> status b = ''confirmed'' \<longrightarrow>
     (\<exists>bs' be. strptime_HM (start_time b) = Some bs' \<and> strptime_HM (end_time b) = Some be
        \<and> (e \<le> time_to_minutes bs' \<or> time_to_minutes be \<le> s))"
proof (induction bs)
  case Nil
  then show ?case by simp
next
  case (Cons b rest)
  show ?case
  proof (cases "date b = ds \<and> status b = ''confirmed''")
    case False
    with Cons show ?thesis by auto
  next
    case True
    with Cons.prems obtain bs' be where
      p: "strptime_HM (start_time b) = Some bs'" "strptime_HM (end_time b) = Some be"
      by (auto simp: parse_time_def split: option.splits)
    with True Cons.prems have no: "e \<le> time_to_minutes bs' \<or> time_to_minutes be \<le> s"
      and r: "check_existing ds s e rest = Inr True"
      by (auto simp: parse_time_def split: if_splits)
    from Cons.IH[OF r] p no show ?thesis by auto
  qed
qed

lemma is_slot_available_True:
  assumes "is_slot_available st d t dur = Inr True"
  shows "\<exists>wh ws we ls le.
      get_working_hours st d = Some wh
    \<and> strptime_HM (wh_start wh) = Some ws \<and> strptime_HM (wh_end wh) = Some we
    \<and> time_to_minutes ws \<le> time_to_minutes t
    \<and> time_to_minutes t + dur \<le> time_to_minutes we
    \<and> strptime_HM (wh_start (get_lunch_break st)) = Some ls
    \<and> strptime_HM (wh_end (get_lunch_break st)) = Some le
    \<and> (time_to_minutes t + dur \<le> time_to_minutes ls \<or> time_to_minutes le \<le> time_to_minutes t)
    \<and> check_existing (strftime_Ymd d) (time_to_minutes t) (time_to_minutes t + dur)
          (booking_list st) = Inr True"
proof -
  from assms obtain wh where wh: "get_working_hours st d = Some wh"
    by (cases "get_working_hours st d") (auto simp: is_slot_available_def split: if_splits)
  from assms wh obtain ws where ws: "strptime_HM (wh_start wh) = Some ws"
    by (cases "strptime_HM (wh_start wh)")
       (auto simp: is_slot_available_def parse_time_def split: if_splits)
  from assms wh ws obtain we where we: "strptime_HM (wh_end wh) = Some we"
    by (cases "strptime_HM (wh_end wh)")
       (auto simp: is_slot_available_def parse_time_def split: if_splits)
  from assms wh ws we have inhours: "time_to_minutes ws \<le> time_to_minutes t"
      "time_to_minutes t + dur \<le> time_to_minutes we"
    by (auto simp: is_slot_available_def parse_time_def Let_def split: if_splits)
  from assms wh ws we inhours obtain ls where ls: "strptime_HM (wh_start (get_lunch_break st)) = Some ls"
    by (cases "strptime_HM (wh_start (get_lunch_break st))")
       (auto simp: is_slot_available_def parse_time_def Let_def split: if_splits)
  from assms wh ws we inhours ls obtain le where le: "strptime_HM (wh_end (get_lunch_break st)) = Some le"
    by (cases "strptime_HM (wh_end (get_lunch_break st))")
       (auto simp: is_slot_available_def parse_time_def Let_def split: if_splits)
  from assms wh ws we inhours ls le
  have rest: "(time_to_minutes t + dur \<le> time_to_minutes ls \<or> time_to_minutes le \<le> time_to_minutes t)"
    "check_existing (strftime_Ymd d) (time_to_minutes t) (time_to_minutes t + dur)
          (booking_list st) = Inr True"
    by (auto simp: is_slot_available_def parse_time_def Let_def split: if_splits)
  from wh ws we inhours ls le rest show ?thesis by blast
qed

lemma check_existing_append:
  "check_existing ds s e bs = Inr True \<Longrightarrow>
   check_existing ds s e (bs @ cs) = check_existing ds s e cs"
proof (induction bs)
  case Nil
  then show ?case by simp
next
  case (Cons b rest)
  show ?case
  proof (cases "date b = ds \<and> status b = ''confirmed''")
    case False
    with Cons show ?thesis by auto
  next
    case True
    with Cons.prems obtain bs' be where
      p: "parse_time (start_time b) = Inr bs'" "parse_time (end_time b) = Inr be"
      by (auto split: sum.splits)
    with True Cons.prems have no: "e \<le> time_to_minutes bs' \<or> time_to_minutes be \<le> s"
      and r: "check_existing ds s e rest = Inr True"
      by (auto split: if_splits)
    from Cons.IH[OF r] True p no show ?thesis by auto
  qed
qed

lemma booking_list_after_book:
  assumes "refs_ok st"
  shows "booking_list (save_booking (st\<lparr>store := store st @ [b]\<rparr>) (length (store st)))
         = booking_list st @ [b]"
proof -
  have "map ((!) (store st @ [b])) (bookings st) = map ((!) (store st)) (bookings st)"
    using assms by (auto simp: refs_ok_def list_all_iff nth_append)
  then show ?thesis
    by (simp add: save_booking_def Let_def booking_list_def booking_at_def[abs_def])
qed

text \<open>
  When the date string is in the zero-padded form that \<^verbatim>\<open>strftime\<close> produces, the
  overlap check does see the booking just made: booking the same type, date and start
  time again fails.  This is stated for years from 1000 on, where every C library prints
  the four digits of the year.
\<close>

lemma rebooking_padded_date_fails:
  assumes ok: "refs_ok st"
    and book: "book_appointment st g appt_type date_str start_time_str pat reason_str = Inr (res, st')"
    and conf: "br_status res = ''confirmed''"
    and padded: "\<exists>d. strptime_Ymd date_str = Some d \<and> strftime_Ymd d = date_str
                    \<and> 1000 \<le> year d"
  shows "book_appointment st' g' appt_type date_str start_time_str pat' reason_str'
         = Inr (failed_result ''Time slot is not available'', st')"
proof -
  let ?dur = "duration_of appt_type"
  from book_confirmed[OF book conf] obtain d t te where
    d: "strptime_Ymd date_str = Some d" and t: "strptime_HM start_time_str = Some t"
    and av: "is_slot_available st d t ?dur = Inr True"
    and te: "minutes_to_time (time_to_minutes t + ?dur) = Inr te"
    and st': "st' = save_booking
         (st\<lparr>store := store st @
            [\<lparr>booking_id = gen_booking_id g, date = date_str, start_time = start_time_str,
              end_time = strftime_HM te, appointment_type = appt_type,
              patient_name = name pat, patient_email = email pat, patient_phone = phone pat,
              reason = reason_str, status = ''confirmed'',
              confirmation_code = gen_confirmation_code g,
              created_at = gen_created_at g\<rparr>]\<rparr>) (length (store st))"
    by blast
  let ?b = "\<lparr>booking_id = gen_booking_id g, date = date_str, start_time = start_time_str,
              end_time = strftime_HM te, appointment_type = appt_type,
              patient_name = name pat, patient_email = email pat, patient_phone = phone pat,
              reason = reason_str, status = ''confirmed'',
              confirmation_code = gen_confirmation_code g,
              created_at = gen_created_at g\<rparr>"
  from padded d have pd: "strftime_Ymd d = date_str" by auto
  have bl: "booking_list st' = booking_list st @ [?b]"
    unfolding st' using ok by (rule booking_list_after_book)
  have sd: "schedule_data st' = schedule_data st"
    by (simp add: st' save_booking_def Let_def)
  from is_slot_available_True[OF av] obtain wh ws we ls le where
    f: "get_working_hours st d = Some wh"
       "strptime_HM (wh_start wh) = Some ws" "strptime_HM (wh_end wh) = Some we"
       "time_to_minutes ws \<le> time_to_minutes t"
       "time_to_minutes t + ?dur \<le> time_to_minutes we"
       "strptime_HM (wh_start (get_lunch_break st)) = Some ls"
       "strptime_HM (wh_end (get_lunch_break st)) = Some le"
       "time_to_minutes t + ?dur \<le> time_to_minutes ls \<or> time_to_minutes le \<le> time_to_minutes t"
       "check_existing (strftime_Ymd d) (time_to_minutes t) (time_to_minutes t + ?dur)
          (booking_list st) = Inr True"
    by blast
  have pte: "strptime_HM (strftime_HM te) = Some te" using te by (rule minutes_to_time_roundtrip)
  have mte: "time_to_minutes te = time_to_minutes t + ?dur"
    using minutes_to_time_Inr[OF te] by simp
  have last: "check_existing (strftime_Ymd d) (time_to_minutes t) (time_to_minutes t + ?dur) [?b]
              = Inr False"
    using duration_of_pos[of appt_type] t pte mte pd by (simp add: parse_time_def)
  have ce: "check_existing (strftime_Ymd d) (time_to_minutes t) (time_to_minutes t + ?dur)
              (booking_list st') = Inr False"
    unfolding bl check_existing_append[OF f(9)] by (rule last)
  have gw: "get_working_hours st' d = Some wh" using f(1) by (simp add: get_working_hours_def sd)
  have lb: "get_lunch_break st' = get_lunch_break st" by (simp add: get_lunch_break_def sd)
  have "is_slot_available st' d t ?dur = Inr False"
    using gw f(2-8) ce
    by (auto simp: is_slot_available_def is_working_day_def get_working_hours_def lb
                   parse_time_def Let_def)
  with d t show ?thesis
    by (simp add: book_appointment_def parse_time_def Let_def)
qed

text \<open>
  What an available slot of the grid guarantees: it lies within the working hours of
  the day, it does not overlap the lunch break, and (for years from 1000 on, where every
  C library prints the four digits of the year) it does not overlap any confirmed booking
  that is stored under the zero-padded date string of the day.
\<close>

lemma available_slot_sound:
  assumes av: "get_availability st today date_str appt_type = Some (Inr av)"
    and s: "s \<in> set (available_slots av)" and a: "available s"
  shows "\<exists>d wh ws we ls le t te.
      strptime_Ymd date_str = Some d \<and> get_working_hours st d = Some wh
    \<and> strptime_HM (wh_start wh) = Some ws \<and> strptime_HM (wh_end wh) = Some we
    \<and> strptime_HM (wh_start (get_lunch_break st)) = Some ls
    \<and> strptime_HM (wh_end (get_lunch_break st)) = Some le
    \<and> strptime_HM (slot_start_time s) = Some t \<and> strptime_HM (slot_end_time s) = Some te
    \<and> time_to_minutes te = time_to_minutes t + duration_of appt_type
    \<and> time_to_minutes ws \<le> time_to_minutes t \<and> time_to_minutes te \<le> time_to_minutes we
    \<and> (time_to_minutes te \<le> time_to_minutes ls \<or> time_to_minutes le \<le> time_to_minutes t)
    \<and> (1000 \<le> year d \<longrightarrow>
        (\<forall>b\<in>set (booking_list st). date b = strftime_Ymd d \<and> status b = ''confirmed'' \<longrightarrow>
          (\<exists>bs be. strptime_HM (start_time b) = Some bs \<and> strptime_HM (end_time b) = Some be
             \<and> (time_to_minutes te \<le> time_to_minutes bs \<or> time_to_minutes be \<le> time_to_minutes t))))"
proof -
  let ?dur = "duration_of appt_type"
  from s have "available_slots av \<noteq> []" by auto
  with get_availability_returns[OF av]
  have "\<exists>d wh ws we step.
          strptime_Ymd date_str = Some d \<and> \<not> date_less d today
        \<and> get_working_hours st d = Some wh
        \<and> strptime_HM (wh_start wh) = Some ws \<and> strptime_HM (wh_end wh) = Some we
        \<and> step = (case slot_duration_minutes (schedule_data st) of None \<Rightarrow> 15 | Some g \<Rightarrow> g)
        \<and> 0 < step
        \<and> available_slots av =
            map (slot_at st d ?dur)
              (candidate_starts (time_to_minutes ws) (time_to_minutes we) ?dur step)"
    by blast
  then obtain d wh0 ws0 we0 step where
    d: "strptime_Ymd date_str = Some d"
    and ws0: "strptime_HM (wh_start (wh0::hours)) = Some ws0"
    and we0: "strptime_HM (wh_end wh0) = Some we0"
    and pos: "0 < step"
    and sl: "available_slots av =
            map (slot_at st d ?dur)
              (candidate_starts (time_to_minutes ws0) (time_to_minutes we0) ?dur step)"
    by blast
  from s sl obtain m where
    m: "m \<in> set (candidate_starts (time_to_minutes ws0) (time_to_minutes we0) ?dur step)"
    and sm: "s = slot_at st d ?dur m" by auto
  from candidate_starts_bounds[OF pos m] time_to_minutes_range[OF ws0] time_to_minutes_range[OF we0]
  have b: "0 \<le> m" "m + ?dur \<le> 1439" by auto
  have dur: "0 \<le> ?dur" using duration_of_pos[of appt_type] by simp
  from slot_at_times[OF b dur, of st d] obtain t te where
    t: "strptime_HM (slot_start_time s) = Some t" "strptime_HM (slot_end_time s) = Some te"
       "time_to_minutes t = m" "time_to_minutes te = m + ?dur"
    unfolding sm by blast
  let ?t0 = "\<lparr>hour = m div 60, minute = m mod 60\<rparr>"
  have m0: "time_to_minutes ?t0 = m" by (simp add: time_to_minutes_def)
  from a have "is_slot_available st d ?t0 ?dur = Inr True" by (simp add: sm slot_at_def)
  from is_slot_available_True[OF this] obtain wh ws we ls le where
    f: "get_working_hours st d = Some wh"
       "strptime_HM (wh_start wh) = Some ws" "strptime_HM (wh_end wh) = Some we"
       "time_to_minutes ws \<le> m" "m + ?dur \<le> time_to_minutes we"
       "strptime_HM (wh_start (get_lunch_break st)) = Some ls"
       "strptime_HM (wh_end (get_lunch_break st)) = Some le"
       "m + ?dur \<le> time_to_minutes ls \<or> time_to_minutes le \<le> m"
       "check_existing (strftime_Ymd d) m (m + ?dur) (booking_list st) = Inr True"
    unfolding m0 by blast
  note ce = check_existing_True[OF f(9)]
  from d f(1-3,6,7) t(1,2) show ?thesis
  proof (intro exI conjI)
    show "time_to_minutes te = time_to_minutes t + ?dur" using t by simp
    show "time_to_minutes ws \<le> time_to_minutes t" using f(4) t by simp
    show "time_to_minutes te \<le> time_to_minutes we" using f(5) t by simp
    show "time_to_minutes te \<le> time_to_minutes ls \<or> time_to_minutes le \<le> time_to_minutes t"
      using f(8) t by simp
    have "\<forall>b\<in>set (booking_list st). date b = strftime_Ymd d \<and> status b = ''confirmed'' \<longrightarrow>
          (\<exists>bs be. strptime_HM (start_time b) = Some bs \<and> strptime_HM (end_time b) = Some be
             \<and> (time_to_minutes te \<le> time_to_minutes bs \<or> time_to_minutes be \<le> time_to_minutes t))"
      using ce unfolding t(3,4) .
    then show "1000 \<le> year d \<longrightarrow>
        (\<forall>b\<in>set (booking_list st). date b = strftime_Ymd d \<and> status b = ''confirmed'' \<longrightarrow>
          (\<exists>bs be. strptime_HM (start_time b) = Some bs \<and> strptime_HM (end_time b) = Some be
             \<and> (time_to_minutes te \<le> time_to_minutes bs \<or> time_to_minutes be \<le> time_to_minutes t)))"
      by (rule impI)
  qed
qed

section \<open>The bands of the time-of-day preference\<close>

lemma py_int_two:
  "digit_of a = Some x \<Longrightarrow> digit_of b = Some y \<Longrightarrow> py_int [a, b] = Inr (10 * x + y)"
  by (simp add: py_int_def)

lemma split_colon_first_strftime:
  assumes "0 \<le> hour t" "hour t \<le> 23"
  shows "split_colon_first (strftime_HM t)
         = [digit_char (hour t div 10 mod 10), digit_char (hour t mod 10)]"
proof -
  have a: "0 \<le> hour t div 10 mod 10" "hour t div 10 mod 10 \<le> 9" by simp_all
  have b: "0 \<le> hour t mod 10" "hour t mod 10 \<le> 9" by simp_all
  from digit_char_not_sep[OF a] digit_char_not_sep[OF b]
  show ?thesis by (simp add: split_colon_first_def strftime_HM_def pad2_def)
qed

lemma start_hour_strftime:
  assumes "0 \<le> hour t" "hour t \<le> 23"
  shows "py_int (split_colon_first (strftime_HM t)) = Inr (hour t)"
proof -
  have a: "0 \<le> hour t div 10 mod 10" "hour t div 10 mod 10 \<le> 9" by simp_all
  have b: "0 \<le> hour t mod 10" "hour t mod 10 \<le> 9" by simp_all
  have e: "hour t div 10 mod 10 = hour t div 10" using assms by simp
  have "py_int [digit_char (hour t div 10 mod 10), digit_char (hour t mod 10)]
        = Inr (10 * (hour t div 10 mod 10) + hour t mod 10)"
    using digit_of_digit_char[OF a] digit_of_digit_char[OF b] by (rule py_int_two)
  also have "10 * (hour t div 10 mod 10) + hour t mod 10 = hour t"
    unfolding e by (rule mult_div_mod_eq)
  finally show ?thesis unfolding split_colon_first_strftime[OF assms] .
qed

lemma filter_slots_bands:
  assumes "\<forall>s\<in>set xs. \<exists>t. slot_start_time s = strftime_HM t
              \<and> 0 \<le> hour t \<and> hour t \<le> 23 \<and> 0 \<le> minute t \<and> minute t \<le> 59"
  shows "filter_slots pref xs
         = Inr (filter (\<lambda>s. \<exists>h. start_hour s = Some h \<and> in_band pref h) xs)"
  using assms
proof (induction xs)
  case Nil
  then show ?case by simp
next
  case (Cons s rest)
  from Cons.prems obtain t where
    t: "slot_start_time s = strftime_HM t" "0 \<le> hour t" "hour t \<le> 23"
       "0 \<le> minute t" "minute t \<le> 59" by auto
  have h: "py_int (split_colon_first (slot_start_time s)) = Inr (hour t)"
    unfolding t(1) using t(2,3) by (rule start_hour_strftime)
  have sh: "start_hour s = Some (hour t)"
    unfolding start_hour_def t(1) using strptime_strftime_HM[OF t(2-5)] by simp
  from Cons.prems have "\<forall>s\<in>set rest. \<exists>t. slot_start_time s = strftime_HM t
              \<and> 0 \<le> hour t \<and> hour t \<le> 23 \<and> 0 \<le> minute t \<and> minute t \<le> 59" by simp
  from Cons.IH[OF this] h sh show ?case
    by (auto simp: in_band_def)
qed

text \<open>
  What \<^verbatim>\<open>get_available_slots_only\<close> keeps of a returned grid: with no preference
  (absent or the empty string) the available slots; with a preference the available slots
  whose start hour is in the band of that preference, which for any string other than
  the three band names is no slot at all.
\<close>

lemma available_slots_only_bands:
  assumes av: "get_availability st today date_str appt_type = Some (Inr av)"
  shows "get_available_slots_only st today date_str appt_type pref =
     Some (Inr (case pref of
        None \<Rightarrow> filter available (available_slots av)
      | Some p \<Rightarrow>
          if p = [] then filter available (available_slots av)
          else filter (\<lambda>s. \<exists>h. start_hour s = Some h \<and> in_band p h)
                 (filter available (available_slots av))))"
proof -
  let ?a = "filter available (available_slots av)"
  have fmt: "\<forall>s\<in>set ?a. \<exists>t. slot_start_time s = strftime_HM t
              \<and> 0 \<le> hour t \<and> hour t \<le> 23 \<and> 0 \<le> minute t \<and> minute t \<le> 59"
  proof
    fix s assume "s \<in> set ?a"
    then have s: "s \<in> set (available_slots av)" by simp
    then have "available_slots av \<noteq> []" by auto
    with get_availability_returns[OF av]
    have "\<exists>d wh ws we step.
          strptime_Ymd date_str = Some d \<and> \<not> date_less d today
        \<and> get_working_hours st d = Some wh
        \<and> strptime_HM (wh_start wh) = Some ws \<and> strptime_HM (wh_end wh) = Some we
        \<and> step = (case slot_duration_minutes (schedule_data st) of None \<Rightarrow> 15 | Some g \<Rightarrow> g)
        \<and> 0 < step
        \<and> available_slots av =
            map (slot_at st d (duration_of appt_type))
              (candidate_starts (time_to_minutes ws) (time_to_minutes we)
                 (duration_of appt_type) step)"
      by blast
    then obtain d wh ws we step where
      ws: "strptime_HM (wh_start (wh::hours)) = Some ws" and we: "strptime_HM (wh_end wh) = Some we"
      and pos: "0 < step"
      and sl: "available_slots av =
            map (slot_at st d (duration_of appt_type))
              (candidate_starts (time_to_minutes ws) (time_to_minutes we)
                 (duration_of appt_type) step)"
      by blast
    from s sl obtain m where
      m: "m \<in> set (candidate_starts (time_to_minutes ws) (time_to_minutes we)
                 (duration_of appt_type) step)"
      and sm: "s = slot_at st d (duration_of appt_type) m" by auto
    from candidate_starts_bounds[OF pos m] time_to_minutes_range[OF ws] time_to_minutes_range[OF we]
         duration_of_pos[of appt_type]
    have b: "0 \<le> m" "m < 1440" by auto
    have "minutes_to_time m = Inr \<lparr>hour = m div 60, minute = m mod 60\<rparr>"
      using b by (rule minutes_to_time_ok)
    from minutes_to_time_Inr[OF this]
    have "0 \<le> hour \<lparr>hour = m div 60, minute = m mod 60\<rparr>
          \<and> hour \<lparr>hour = m div 60, minute = m mod 60\<rparr> \<le> 23
          \<and> 0 \<le> minute \<lparr>hour = m div 60, minute = m mod 60\<rparr>
          \<and> minute \<lparr>hour = m div 60, minute = m mod 60\<rparr> \<le> 59" by blast
    moreover have "slot_start_time s = strftime_HM \<lparr>hour = m div 60, minute = m mod 60\<rparr>"
      by (simp add: sm slot_at_def)
    ultimately show "\<exists>t. slot_start_time s = strftime_HM t
              \<and> 0 \<le> hour t \<and> hour t \<le> 23 \<and> 0 \<le> minute t \<and> minute t \<le> 59" by blast
  qed
  define a where "a = filter available (available_slots av)"
  have g: "get_available_slots_only st today date_str appt_type pref =
     (case pref of None \<Rightarrow> Some (Inr a)
      | Some p \<Rightarrow> if p \<noteq> [] \<and> a \<noteq> [] then Some (filter_slots p a) else Some (Inr a))"
    unfolding a_def using av by (simp add: get_available_slots_only_def Let_def)
  have fs: "filter_slots p a = Inr (filter (\<lambda>s. \<exists>h. start_hour s = Some h \<and> in_band p h) a)" for p
    using fmt unfolding a_def[symmetric] by (rule filter_slots_bands)
  have "get_available_slots_only st today date_str appt_type pref =
     Some (Inr (case pref of
        None \<Rightarrow> a
      | Some p \<Rightarrow>
          if p = [] then a
          else filter (\<lambda>s. \<exists>h. start_hour s = Some h \<and> in_band p h) a))"
  proof (cases pref)
    case None
    with g show ?thesis by simp
  next
    case (Some p)
    show ?thesis
    proof (cases "p = []")
      case True
      with Some g show ?thesis by simp
    next
      case False
      show ?thesis
      proof (cases "a = []")
        case True
        with Some g False show ?thesis by simp
      next
        case na: False
        with Some g False fs[of p] show ?thesis by simp
      qed
    qed
  qed
  then show ?thesis unfolding a_def .
qed


section \<open>The assumptions on states are invariants\<close>

text \<open>
  The two assumptions on states that the theorems above make, \<open>refs_ok\<close> and
  \<open>times_ok\<close>, hold of an engine that starts with a well-formed file and no bookings
  (\<open>clinic\<close>, \<open>small_clinic\<close>), and every \<^verbatim>\<open>book_appointment\<close> and
  \<^verbatim>\<open>cancel_booking\<close> keeps them.
\<close>

lemma refs_ok_book:
  assumes "refs_ok st"
    and "book_appointment st g appt_type date_str start_time_str pat reason_str = Inr (res, st')"
  shows "refs_ok st'"
proof (cases "br_status res = ''confirmed''")
  case True
  from book_confirmed[OF assms(2) True] obtain b where
    "st' = save_booking (st\<lparr>store := store st @ [b]\<rparr>) (length (store st))" by blast
  with assms(1) show ?thesis
    by (auto simp: refs_ok_def save_booking_def Let_def list_all_iff)
next
  case False
  with assms(2) have "st' = st"
    by (auto simp: book_appointment_def Let_def failed_result_def
             split: option.splits sum.splits exn.splits bool.splits)
  with assms(1) show ?thesis by simp
qed

lemma refs_ok_cancel:
  assumes "refs_ok st" and "cancel_booking st bid = (r, st')"
  shows "refs_ok st'"
proof (cases "find_booking st bid (bookings st)")
  case None
  with assms show ?thesis by (simp add: cancel_booking_def)
next
  case (Some a)
  from find_booking_Some[OF Some] have "a \<in> set (bookings st)" by simp
  with assms(1) have "a < length (store st)" by (simp add: refs_ok_def list_all_iff)
  with assms Some show ?thesis
    by (auto simp: cancel_booking_def refs_ok_def save_booking_def Let_def list_all_iff)
qed

lemma times_ok_book:
  assumes ok: "refs_ok st" and t: "times_ok st"
    and book: "book_appointment st g appt_type date_str start_time_str pat reason_str = Inr (res, st')"
  shows "times_ok st'"
proof (cases "br_status res = ''confirmed''")
  case False
  with book have "st' = st"
    by (auto simp: book_appointment_def Let_def failed_result_def
             split: option.splits sum.splits exn.splits bool.splits)
  with t show ?thesis by simp
next
  case True
  from book_confirmed[OF book True] obtain ts te where
    ts: "strptime_HM start_time_str = Some ts"
    and te: "minutes_to_time (time_to_minutes ts + duration_of appt_type) = Inr te"
    and st': "st' = save_booking
         (st\<lparr>store := store st @
            [\<lparr>booking_id = gen_booking_id g, date = date_str, start_time = start_time_str,
              end_time = strftime_HM te, appointment_type = appt_type,
              patient_name = name pat, patient_email = email pat, patient_phone = phone pat,
              reason = reason_str, status = ''confirmed'',
              confirmation_code = gen_confirmation_code g,
              created_at = gen_created_at g\<rparr>]\<rparr>) (length (store st))"
    by blast
  have bl: "booking_list st' = booking_list st @
            [\<lparr>booking_id = gen_booking_id g, date = date_str, start_time = start_time_str,
              end_time = strftime_HM te, appointment_type = appt_type,
              patient_name = name pat, patient_email = email pat, patient_phone = phone pat,
              reason = reason_str, status = ''confirmed'',
              confirmation_code = gen_confirmation_code g,
              created_at = gen_created_at g\<rparr>]"
    unfolding st' using ok by (rule booking_list_after_book)
  have lb: "get_lunch_break st' = get_lunch_break st"
    by (simp add: get_lunch_break_def st' save_booking_def Let_def)
  from t ts minutes_to_time_roundtrip[OF te] show ?thesis
    by (simp add: times_ok_def bl lb)
qed

lemma times_ok_cancel:
  assumes ok: "refs_ok st" and t: "times_ok st" and c: "cancel_booking st bid = (r, st')"
  shows "times_ok st'"
proof (cases "find_booking st bid (bookings st)")
  case None
  with c t show ?thesis by (simp add: cancel_booking_def)
next
  case (Some a)
  from find_booking_Some[OF Some] have "a \<in> set (bookings st)" by simp
  with ok have lt: "a < length (store st)" by (simp add: refs_ok_def list_all_iff)
  from c Some have st': "st' = save_booking
      (st\<lparr>store := (store st)[a := (booking_at st a)\<lparr>status := ''cancelled''\<rparr>]\<rparr>) a"
    by (simp add: cancel_booking_def)
  have lb: "get_lunch_break st' = get_lunch_break st"
    by (simp add: get_lunch_break_def st' save_booking_def Let_def)
  have at: "booking_at st' x = (if x = a then (booking_at st a)\<lparr>status := ''cancelled''\<rparr>
                               else booking_at st x)" for x
    using lt by (simp add: st' save_booking_def Let_def booking_at_def)
  have "\<forall>b\<in>set (booking_list st'). status b \<noteq> ''confirmed''
          \<or> (strptime_HM (start_time b) \<noteq> None \<and> strptime_HM (end_time b) \<noteq> None)"
  proof
    fix b assume "b \<in> set (booking_list st')"
    then obtain x where x: "x \<in> set (bookings st')" and b: "b = booking_at st' x"
      by (auto simp: booking_list_def)
    from x have x': "x \<in> set (bookings st)"
      using \<open>a \<in> set (bookings st)\<close> by (auto simp: st' save_booking_def Let_def)
    show "status b \<noteq> ''confirmed''
          \<or> (strptime_HM (start_time b) \<noteq> None \<and> strptime_HM (end_time b) \<noteq> None)"
    proof (cases "x = a")
      case True
      then show ?thesis by (simp add: b at)
    next
      case False
      from x' have "booking_at st x \<in> set (booking_list st)" by (simp add: booking_list_def)
      with t have "status (booking_at st x) \<noteq> ''confirmed''
          \<or> (strptime_HM (start_time (booking_at st x)) \<noteq> None
              \<and> strptime_HM (end_time (booking_at st x)) \<noteq> None)"
        by (auto simp: times_ok_def list_all_iff)
      with False show ?thesis by (simp add: b at)
    qed
  qed
  with t show ?thesis by (simp add: times_ok_def lb list_all_iff)
qed

end
